theory Spec2Isabelle
  imports Main "HOL-Library.Char_ord" "HOL-Library.List_Lexorder" "HOL-Library.Product_Lexorder"
    "HOL-Library.Multiset"
begin

section \<open>The mock generator of pegomock (mockgen/mockgen.go)\<close>

text \<open>
  Go strings are byte sequences; they are modelled as \<^typ>\<open>string\<close>, compared byte by
  byte (the order of \<open>sort.Strings\<close>). Import paths are taken over ASCII, where the
  runes that \<open>range\<close> yields are the bytes themselves; \<open>unicode.IsLetter\<close> and
  \<open>unicode.IsDigit\<close> are given on that range, and every other byte is neither.
\<close>

subsection \<open>Library functions the generator calls\<close>

definition IsLetter :: "char \<Rightarrow> bool" where
  "IsLetter r \<longleftrightarrow> (CHR ''a'' \<le> r \<and> r \<le> CHR ''z'') \<or> (CHR ''A'' \<le> r \<and> r \<le> CHR ''Z'')"

definition IsDigit :: "char \<Rightarrow> bool" where
  "IsDigit r \<longleftrightarrow> CHR ''0'' \<le> r \<and> r \<le> CHR ''9''"

text \<open>\<open>strconv.Itoa\<close> on the non-negative counters the generator formats.\<close>

definition digit :: "nat \<Rightarrow> char" where
  "digit d = ''0123456789'' ! d"

fun Itoa :: "nat \<Rightarrow> string" where
  "Itoa n = (if n < 10 then [digit n] else Itoa (n div 10) @ [digit (n mod 10)])"

declare Itoa.simps [simp del]

text \<open>\<open>token.Lookup(name).IsKeyword()\<close>: the keyword table of go/token.\<close>

definition keywordTable :: "string list" where
  "keywordTable =
    [''break'', ''case'', ''chan'', ''const'', ''continue'',
     ''default'', ''defer'', ''else'', ''fallthrough'', ''for'',
     ''func'', ''go'', ''goto'', ''if'', ''import'',
     ''interface'', ''map'', ''package'', ''range'', ''return'',
     ''select'', ''struct'', ''switch'', ''type'', ''var'']"

definition IsKeyword :: "string \<Rightarrow> bool" where
  "IsKeyword name \<longleftrightarrow> name \<in> set keywordTable"

text \<open>\<open>strings.Join\<close>.\<close>

fun Join :: "string list \<Rightarrow> string \<Rightarrow> string" where
  "Join [] sep = []"
| "Join [x] sep = x"
| "Join (x # y # ys) sep = x @ sep @ Join (y # ys) sep"

text \<open>\<open>strings.Index\<close>: the position of the first occurrence of \<open>sep\<close>, if any.\<close>

fun Index :: "string \<Rightarrow> string \<Rightarrow> nat option" where
  "Index s sep =
     (if take (length sep) s = sep then Some 0
      else (case s of [] \<Rightarrow> None | c # cs \<Rightarrow> map_option Suc (Index cs sep)))"

declare Index.simps [simp del]

text \<open>
  \<open>strings.Split\<close>: cut at every non-overlapping occurrence of \<open>sep\<close>, left to right;
  an empty separator explodes the string.
\<close>

function Split :: "string \<Rightarrow> string \<Rightarrow> string list" where
  "Split s sep =
     (if sep = [] then map (\<lambda>c. [c]) s
      else (case Index s sep of
              None \<Rightarrow> [s]
            | Some m \<Rightarrow> take m s # Split (drop (m + length sep) s) sep))"
  by pat_completeness auto

lemma Index_le: "Index s sep = Some m \<Longrightarrow> m + length sep \<le> length s"
proof (induction s arbitrary: m)
  case Nil
  then show ?case
    by (simp add: Index.simps [of "[]"] split: if_splits)
next
  case (Cons c cs)
  show ?case
  proof (cases "take (length sep) (c # cs) = sep")
    case True
    then have "length (take (length sep) (c # cs)) = length sep"
      by simp
    then have "length sep \<le> length (c # cs)"
      by simp
    moreover from True Cons.prems have "m = 0"
      by (simp add: Index.simps [of "c # cs"])
    ultimately show ?thesis by simp
  next
    case False
    with Cons.prems obtain m' where "Index cs sep = Some m'" "m = Suc m'"
      by (auto simp: Index.simps [of "c # cs"])
    with Cons.IH show ?thesis by fastforce
  qed
qed

termination Split
proof (relation "measure (\<lambda>(s, sep). length s)")
  show "wf (measure (\<lambda>(s, sep). length s))" by simp
next
  fix s sep :: string and m
  assume "sep \<noteq> []" and "Index s sep = Some m"
  then have "m + length sep \<le> length s" and "length sep \<noteq> 0"
    by (auto dest: Index_le)
  then have "length s - (m + length sep) < length s"
    by arith
  then show "((drop (m + length sep) s, sep), (s, sep)) \<in> measure (\<lambda>(s, sep). length s)"
    by simp
qed

declare Split.simps [simp del]

text \<open>
  \<open>path.Base\<close>: the last element of the path, after trailing slashes are removed;
  \<open>"."\<close> for the empty path and \<open>"/"\<close> for a path of slashes only.
\<close>

fun stripTrailingSlashes :: "string \<Rightarrow> string" where
  "stripTrailingSlashes p =
     (if p \<noteq> [] \<and> last p = CHR ''/'' then stripTrailingSlashes (butlast p) else p)"

declare stripTrailingSlashes.simps [simp del]

fun lastElement :: "string \<Rightarrow> string" where
  "lastElement [] = []"
| "lastElement (c # cs) = (if CHR ''/'' \<in> set cs then lastElement cs
                           else if c = CHR ''/'' then cs else c # cs)"

definition Base :: "string \<Rightarrow> string" where
  "Base p =
     (if p = [] then ''.''
      else (let q = lastElement (stripTrailingSlashes p)
            in if q = [] then ''/'' else q))"

subsection \<open>The alias resolver\<close>

definition mockFrameworkImportPath :: string where
  "mockFrameworkImportPath = ''github.com/petergtz/pegomock/v4''"

definition vendorCleaned :: "string \<Rightarrow> string" where
  "vendorCleaned importPath =
     (let split = Split importPath ''/vendor/''
      in if length split > 1 then split ! 1 else importPath)"

text \<open>
  \<open>sanitize\<close> ranges over the runes of its argument. The definition is the code on
  ASCII strings, where every rune is one byte: it visits the bytes, and \<open>IsLetter\<close> and
  \<open>IsDigit\<close> are the ASCII letters and digits. Go decodes a byte sequence outside ASCII
  into multi-byte runes, among them letters and digits of other scripts; that decoding is
  not modelled.
\<close>

fun sanitize_loop :: "string \<Rightarrow> string \<Rightarrow> string" where
  "sanitize_loop t [] = t"
| "sanitize_loop t (r # rs) =
     (if t = [] then
        (if IsLetter r \<or> r = CHR ''_'' then sanitize_loop (t @ [r]) rs
         else sanitize_loop (t @ ''_'') rs)
      else
        (if IsLetter r \<or> IsDigit r \<or> r = CHR ''_'' then sanitize_loop (t @ [r]) rs
         else sanitize_loop (t @ ''_'') rs))"

definition sanitize :: "string \<Rightarrow> string" where
  "sanitize s = (let t = sanitize_loop [] s in if t = ''_'' then ''x'' else t)"

text \<open>
  The loop \<open>for i := 0; used[packageName] || IsKeyword(packageName); i++\<close>, on the state
  \<open>(packageName, i)\<close>. \<open>packageNamesAlreadyUsed\<close> is a \<open>map[string]bool\<close> that only
  ever stores \<open>true\<close>; it is kept as the list of its keys. The counter is a Go \<open>int\<close>
  that starts at 0 and stops below the number of names in use plus the number of
  keywords, so it is a \<^typ>\<open>nat\<close>.
\<close>

function nameLoop :: "string list \<Rightarrow> string \<Rightarrow> string \<Rightarrow> nat \<Rightarrow> string" where
  "nameLoop used base packageName i =
     (if packageName \<in> set used \<or> IsKeyword packageName
      then nameLoop used base (base @ Itoa i) (Suc i)
      else packageName)"
  by pat_completeness auto

lemma digit_inj: "a < 10 \<Longrightarrow> b < 10 \<Longrightarrow> digit a = digit b \<Longrightarrow> a = b"
proof -
  assume a: "a < 10" and b: "b < 10" and e: "digit a = digit b"
  have "distinct ''0123456789''" by simp
  moreover have "a < length ''0123456789''" "b < length ''0123456789''" using a b by simp_all
  ultimately have "(''0123456789'' ! a = ''0123456789'' ! b) = (a = b)"
    by (rule nth_eq_iff_index_eq)
  with e show "a = b" by (simp add: digit_def)
qed

lemma Itoa_nonempty: "Itoa n \<noteq> []"
  by (subst Itoa.simps) simp

lemma Itoa_inj: "Itoa n = Itoa m \<Longrightarrow> n = m"
proof (induction n arbitrary: m rule: Itoa.induct)
  case (1 n)
  show ?case
  proof (cases "n < 10")
    case True
    show ?thesis
    proof (cases "m < 10")
      case m: True
      from "1.prems" True m have "digit n = digit m"
        by (simp add: Itoa.simps [of n] Itoa.simps [of m])
      with True m show ?thesis by (simp add: digit_inj)
    next
      case m: False
      from "1.prems" True m have "[digit n] = Itoa (m div 10) @ [digit (m mod 10)]"
        by (simp add: Itoa.simps [of n] Itoa.simps [of m])
      then have "Itoa (m div 10) = []" by simp
      then show ?thesis by (simp add: Itoa_nonempty)
    qed
  next
    case False
    show ?thesis
    proof (cases "m < 10")
      case m: True
      from "1.prems" False m have "Itoa (n div 10) @ [digit (n mod 10)] = [digit m]"
        by (simp add: Itoa.simps [of n] Itoa.simps [of m])
      then have "Itoa (n div 10) = []" by simp
      then show ?thesis by (simp add: Itoa_nonempty)
    next
      case m: False
      from "1.prems" False m
      have "Itoa (n div 10) @ [digit (n mod 10)] = Itoa (m div 10) @ [digit (m mod 10)]"
        by (simp add: Itoa.simps [of n] Itoa.simps [of m])
      then have e: "Itoa (n div 10) = Itoa (m div 10)"
        and d: "digit (n mod 10) = digit (m mod 10)"
        by simp_all
      from "1.IH" [OF False e] have "n div 10 = m div 10" .
      moreover from d have "n mod 10 = m mod 10"
        by (simp add: digit_inj)
      ultimately show ?thesis
        by (metis div_mult_mod_eq)
    qed
  qed
qed

definition taken :: "string list \<Rightarrow> string \<Rightarrow> bool" where
  "taken used name \<longleftrightarrow> name \<in> set used \<or> IsKeyword name"

definition pending :: "string list \<Rightarrow> string \<Rightarrow> nat \<Rightarrow> nat set" where
  "pending used base i = {j. i \<le> j \<and> taken used (base @ Itoa j)}"

lemma finite_taken: "finite {j. taken used (base @ Itoa j)}"
proof -
  have "{j. taken used (base @ Itoa j)}
      \<subseteq> (\<lambda>j. base @ Itoa j) -` (set used \<union> set keywordTable)"
    by (auto simp: taken_def IsKeyword_def)
  moreover have "finite ((\<lambda>j. base @ Itoa j) -` (set used \<union> set keywordTable))"
    by (rule finite_vimageI) (auto simp: inj_on_def dest: Itoa_inj)
  ultimately show ?thesis by (rule finite_subset)
qed

lemma finite_pending: "finite (pending used base i)"
  unfolding pending_def using finite_taken [of used base] by simp

lemma pending_step:
  "pending used base i =
     (if taken used (base @ Itoa i) then insert i (pending used base (Suc i))
      else pending used base (Suc i))"
  unfolding pending_def by (auto simp: Suc_le_eq order_le_less)

termination nameLoop
proof (relation "measure (\<lambda>(used, base, packageName, i).
         card (pending used base i) + (if taken used packageName then 1 else 0))")
  show "wf (measure (\<lambda>(used, base, packageName, i).
         card (pending used base i) + (if taken used packageName then 1 else 0)))"
    by simp
next
  fix base packageName :: string and i :: nat and used :: "string list"
  assume t: "packageName \<in> set used \<or> IsKeyword packageName"
  have "i \<notin> pending used base (Suc i)" by (simp add: pending_def)
  then have "card (pending used base (Suc i)) + (if taken used (base @ Itoa i) then 1 else 0)
      = card (pending used base i)"
    by (subst (2) pending_step) (simp add: finite_pending)
  with t show "((used, base, base @ Itoa i, Suc i), (used, base, packageName, i))
      \<in> measure (\<lambda>(used, base, packageName, i).
         card (pending used base i) + (if taken used packageName then 1 else 0))"
    by (simp add: taken_def)
qed

declare nameLoop.simps [simp del]

text \<open>
  The body of the loop over \<open>sortedImportPaths\<close>, on the three maps
  \<open>(packageMap, nonVendorPackageMap, packageNamesAlreadyUsed)\<close>.
\<close>

type_synonym aliases = "(string \<rightharpoonup> string) \<times> (string \<rightharpoonup> string) \<times> string list"

definition assignAlias :: "aliases \<Rightarrow> string \<Rightarrow> aliases" where
  "assignAlias st importPath =
     (case st of (packageMap, nonVendorPackageMap, packageNamesAlreadyUsed) \<Rightarrow>
        let sanitizedPackagePathBaseName = sanitize (Base importPath);
            packageName = nameLoop packageNamesAlreadyUsed sanitizedPackagePathBaseName
                            sanitizedPackagePathBaseName 0;
            packageName = (if importPath = mockFrameworkImportPath then ''pegomock''
                           else packageName)
        in (packageMap(importPath \<mapsto> packageName),
            nonVendorPackageMap(vendorCleaned importPath \<mapsto> packageName),
            List.insert packageName packageNamesAlreadyUsed))"

text \<open>
  \<open>importPaths\<close> is a \<open>map[string]bool\<close> used as a set. It is given as the list
  \<open>lo.Keys(importPaths)\<close>, whose order Go leaves unspecified; \<open>sort.Strings\<close> then sorts it.
\<close>

definition generateUniquePackageNamesFor ::
    "string list \<Rightarrow> (string \<rightharpoonup> string) \<times> (string \<rightharpoonup> string)" where
  "generateUniquePackageNamesFor importPaths =
     (let sortedImportPaths = sort importPaths;
          st = foldl assignAlias (Map.empty, Map.empty, []) sortedImportPaths
      in (fst st, fst (snd st)))"

text \<open>The name the loop body of \<open>generateUniquePackageNamesFor\<close> settles on for one path.\<close>

definition aliasFor :: "string list \<Rightarrow> string \<Rightarrow> string" where
  "aliasFor used importPath =
     (if importPath = mockFrameworkImportPath then ''pegomock''
      else nameLoop used (sanitize (Base importPath)) (sanitize (Base importPath)) 0)"

text \<open>
  The state of the loop is free of collisions when every alias assigned is recorded as
  used and two paths share an alias only if it is the hardcoded one and one of them is the
  runtime-support path.
\<close>

definition collisionFree :: "aliases \<Rightarrow> bool" where
  "collisionFree st \<longleftrightarrow>
     (case st of (pm, nv, used) \<Rightarrow>
        ran pm \<subseteq> set used \<and>
        (\<forall>p q a. p \<noteq> q \<longrightarrow> pm p = Some a \<longrightarrow> pm q = Some a \<longrightarrow>
           a = ''pegomock'' \<and> (p = mockFrameworkImportPath \<or> q = mockFrameworkImportPath)))"

subsection \<open>The structural model handed to the generator\<close>

text \<open>
  Modelled from the spec: package \<open>model\<close> (the types \<open>Type\<close>, \<open>Parameter\<close>, \<open>Method\<close>,
  \<open>Interface\<close>, \<open>Package\<close>) is not part of the source at hand. The variants of \<open>Type\<close>
  are the closed set the spec lists; the generator itself only tells a channel type, with
  its direction \<open>Dir\<close> (0 for an undirected channel), from every other variant. The
  fields \<open>Name\<close> and \<open>Type\<close> carry the name of their struct, since record fields share
  one name space.
\<close>

datatype Type =
    NamedType string string
  | PointerType Type
  | SliceType Type
  | MapType Type Type
  | FuncType "Type list" "Type list"
  | ChanType int Type
  | GenericType Type "Type list"
  | TypeParamRef string

record Parameter =
  ParamName :: string
  ParamType :: Type

record Method =
  MethodName :: string
  In :: "Parameter list"
  Variadic :: "Parameter option"
  Out :: "Parameter list"

record Interface =
  InterfaceName :: string
  Methods :: "Method list"
  TypeParams :: "Parameter list"

record Package =
  Interfaces :: "Interface list"
  DotImports :: "string list"

text \<open>
  The method \<open>Type.String(packageMap, pkgOverride)\<close> of package \<open>model\<close> is a parameter
  of the development, as is \<open>Package.Imports()\<close>, given as the keys of the map it returns.
\<close>

type_synonym renderer = "Type \<Rightarrow> (string \<rightharpoonup> string) \<Rightarrow> string \<Rightarrow> string"

subsection \<open>The generator and its buffer\<close>

datatype panic = SliceBoundsOutOfRange | FormatFailure string

record generator =
  buf :: string
  packageMap :: "string \<rightharpoonup> string"

definition newline :: char where
  "newline = CHR 0x0A"

definition tab :: string where
  "tab = [CHR 0x09]"

definition dquote :: string where
  "dquote = [CHR 0x22]"

text \<open>
  \<open>g.p(format, args...)\<close>, here \<open>g_p\<close>, appends the formatted text and a newline. The formatting
  \<open>fmt.Sprintf\<close> does is written out at each call: \<open>%v\<close> of a string is the string,
  \<open>%v\<close> and \<open>%d\<close> of an index are \<open>Itoa\<close>, \<open>%q\<close> is \<open>Quote\<close>.
\<close>

definition g_p :: "string \<Rightarrow> generator \<Rightarrow> generator" where
  "g_p s g = g\<lparr>buf := buf g @ s @ [newline]\<rparr>"

definition emptyLine :: "generator \<Rightarrow> generator" where
  "emptyLine g = g_p [] g"

text \<open>A chain \<open>g.p(l1).p(l2)...\<close> of calls.\<close>

fun ps :: "string list \<Rightarrow> generator \<Rightarrow> generator" where
  "ps [] g = g"
| "ps (l # ls) g = ps ls (g_p l g)"

text \<open>The text a list of \<open>p\<close> calls leaves in the buffer.\<close>

definition unlines :: "string list \<Rightarrow> string" where
  "unlines ls = concat (map (\<lambda>l. l @ [newline]) ls)"

definition andThen :: "panic + 'a \<Rightarrow> ('a \<Rightarrow> panic + 'b) \<Rightarrow> panic + 'b" where
  "andThen r f = (case r of Inl e \<Rightarrow> Inl e | Inr x \<Rightarrow> f x)"

fun forEach :: "('a \<Rightarrow> generator \<Rightarrow> panic + generator) \<Rightarrow> 'a list \<Rightarrow> generator
    \<Rightarrow> panic + generator" where
  "forEach body [] g = Inr g"
| "forEach body (x # xs) g = andThen (body x g) (forEach body xs)"

definition join :: "string list \<Rightarrow> string" where
  "join s = Join s '', ''"

text \<open>
  \<open>strconv.Quote\<close>, which \<open>%q\<close> applies. The definition is the code on ASCII
  strings: a double quote and a backslash are escaped, printable ASCII stands for itself,
  and a control character is written as an escape sequence. A byte outside ASCII is
  written here as a backslash, \<open>x\<close> and two hexadecimal digits, which is what Go does with a byte
  that is not part of a valid UTF-8 sequence; Go keeps a printable multi-byte rune as it
  is, and that decoding is not modelled.
\<close>

definition hexDigit :: "nat \<Rightarrow> char" where
  "hexDigit d = ''0123456789abcdef'' ! d"

definition quoteByte :: "char \<Rightarrow> string" where
  "quoteByte c =
     (if c = CHR 0x22 then [CHR 0x5C, CHR 0x22]
      else if c = CHR 0x5C then [CHR 0x5C, CHR 0x5C]
      else if CHR 0x20 \<le> c \<and> c < CHR 0x7F then [c]
      else if c = CHR 0x07 then [CHR 0x5C, CHR ''a'']
      else if c = CHR 0x08 then [CHR 0x5C, CHR ''b'']
      else if c = CHR 0x0C then [CHR 0x5C, CHR ''f'']
      else if c = CHR 0x0A then [CHR 0x5C, CHR ''n'']
      else if c = CHR 0x0D then [CHR 0x5C, CHR ''r'']
      else if c = CHR 0x09 then [CHR 0x5C, CHR ''t'']
      else if c = CHR 0x0B then [CHR 0x5C, CHR ''v'']
      else [CHR 0x5C, CHR ''x'', hexDigit (of_char c div 16), hexDigit (of_char c mod 16)])"

definition Quote :: "string \<Rightarrow> string" where
  "Quote s = dquote @ concat (map quoteByte s) @ dquote"

text \<open>\<open>strings.Replace(s, old, new, 1)\<close>: the first occurrence only.\<close>

definition Replace1 :: "string \<Rightarrow> string \<Rightarrow> string \<Rightarrow> string" where
  "Replace1 s old new =
     (case Index s old of
        None \<Rightarrow> s
      | Some m \<Rightarrow> take m s @ new @ drop (m + length old) s)"

subsection \<open>The signature projector\<close>

fun typeParamsLoop :: "renderer \<Rightarrow> (string \<rightharpoonup> string) \<Rightarrow> string \<Rightarrow> bool \<Rightarrow> string \<Rightarrow> nat
    \<Rightarrow> Parameter list \<Rightarrow> string" where
  "typeParamsLoop String pm pkgOverride withTypes result i [] = result"
| "typeParamsLoop String pm pkgOverride withTypes result i (param # params) =
     (let result = (if i > 0 then result @ '', '' else result);
          result = result @ ParamName param;
          result = (if withTypes then result @ '' '' @ String (ParamType param) pm pkgOverride
                    else result)
      in typeParamsLoop String pm pkgOverride withTypes result (Suc i) params)"

definition typeParamsStringFrom :: "renderer \<Rightarrow> Parameter list \<Rightarrow> (string \<rightharpoonup> string) \<Rightarrow> string
    \<Rightarrow> bool \<Rightarrow> string" where
  "typeParamsStringFrom String params pm pkgOverride withTypes =
     (if length params = 0 then []
      else typeParamsLoop String pm pkgOverride withTypes ''['' 0 params @ '']'')"

definition argNameAt :: "nat \<Rightarrow> Parameter \<Rightarrow> string" where
  "argNameAt i arg = (if ParamName arg = [] then ''_param'' @ Itoa i else ParamName arg)"

definition argDataFor :: "renderer \<Rightarrow> Method \<Rightarrow> (string \<rightharpoonup> string) \<Rightarrow> string
    \<Rightarrow> string list \<times> string list \<times> string list \<times> Type list" where
  "argDataFor String method pm pkgOverride =
     (let ins = enumerate 0 (In method);
          args = map (\<lambda>(i, arg). argNameAt i arg @ '' '' @ String (ParamType arg) pm pkgOverride) ins;
          argNames = map (\<lambda>(i, arg). argNameAt i arg) ins;
          argTypes = map (\<lambda>(i, arg). String (ParamType arg) pm pkgOverride) ins;
          (args, argNames, argTypes) =
            (case Variadic method of
               None \<Rightarrow> (args, argNames, argTypes)
             | Some v \<Rightarrow>
                 let argName = argNameAt (length (In method)) v;
                     argType = String (ParamType v) pm pkgOverride
                 in (args @ [argName @ '' ...'' @ argType],
                     argNames @ [argName],
                     argTypes @ [''[]'' @ argType]));
          returnTypes = map ParamType (Out method)
      in (args, argNames, argTypes, returnTypes))"

definition stringSliceFrom :: "renderer \<Rightarrow> Type list \<Rightarrow> (string \<rightharpoonup> string) \<Rightarrow> string
    \<Rightarrow> string list" where
  "stringSliceFrom String types pm pkgOverride = map (\<lambda>t. String t pm pkgOverride) types"

subsection \<open>The emitters\<close>

text \<open>
  An emitter that is one chain of \<open>p\<close> calls is given by the list of the lines it
  writes, in order.
\<close>

definition mockTypeLines :: "string \<Rightarrow> string \<Rightarrow> string \<Rightarrow> string list" where
  "mockTypeLines mockTypeName typeParams typeParamNames =
     [[],
         ''type '' @ mockTypeName @ typeParams @ '' struct {'',
         tab @ ''fail func(message string, callerSkip ...int)'',
         ''}'',
         [],
         ''func New'' @ mockTypeName @ typeParams @ ''(options ...pegomock.Option) *''
           @ mockTypeName @ typeParamNames @ '' {'',
         tab @ ''mock := &'' @ mockTypeName @ typeParamNames @ ''{}'',
         tab @ ''for _, option := range options {'',
         tab @ tab @ ''option.Apply(mock)'',
         tab @ ''}'',
         tab @ ''return mock'',
         ''}'',
         [],
         ''func (mock *'' @ mockTypeName @ typeParamNames
           @ '') SetFailHandler(fh pegomock.FailHandler) { mock.fail = fh }'',
         ''func (mock *'' @ mockTypeName @ typeParamNames
           @ '') FailHandler() pegomock.FailHandler      { return mock.fail }'',
         []]"

definition generateMockType :: "string \<Rightarrow> string \<Rightarrow> string \<Rightarrow> generator \<Rightarrow> generator" where
  "generateMockType mockTypeName typeParams typeParamNames g =
     ps (mockTypeLines mockTypeName typeParams typeParamNames) g"

text \<open>
  \<open>argNames[0:len(argNames)-1]\<close> panics on an empty slice; the panic is a result.
\<close>

definition GenerateParamsDeclaration :: "string list \<Rightarrow> bool \<Rightarrow> generator \<Rightarrow> panic + generator" where
  "GenerateParamsDeclaration argNames isVariadic g =
     (if isVariadic then
        (if length argNames = 0 then Inl SliceBoundsOutOfRange
         else Inr (ps [''_params := []pegomock.Param{''
                         @ Join (take (length argNames - 1) argNames) '', '' @ ''}'',
                       ''for _, param := range '' @ argNames ! (length argNames - 1) @ '' {'',
                       ''_params = append(_params, param)'',
                       ''}''] g))
      else Inr (g_p (''_params := []pegomock.Param{'' @ join argNames @ ''}'') g))"

text \<open>
  The body of the loop of \<open>generateMockMethod\<close> over the return types that emits the
  guarded type assertion of one result slot.
\<close>

definition assertResult :: "renderer \<Rightarrow> string \<Rightarrow> generator \<Rightarrow> nat \<times> Type \<Rightarrow> generator" where
  "assertResult String pkgOverride g ir =
     (case ir of (i, returnType) \<Rightarrow>
        let direct = ''_ret'' @ Itoa i @ ''  = _result['' @ Itoa i @ ''].(''
                       @ String returnType (packageMap g) pkgOverride @ '')'';
            g = g_p (''if _result['' @ Itoa i @ ''] != nil {'') g;
            g = (case returnType of
                   ChanType dir elem \<Rightarrow>
                     if dir \<noteq> 0 then
                       (let undirectedChanType = ChanType 0 elem
                        in ps [''var ok bool'',
                               ''  _ret'' @ Itoa i @ '', ok = _result['' @ Itoa i @ ''].(''
                                 @ String undirectedChanType (packageMap g) pkgOverride @ '')'',
                               ''if !ok{'',
                               ''_ret'' @ Itoa i @ '' = _result['' @ Itoa i @ ''].(''
                                 @ String (ChanType dir elem) (packageMap g) pkgOverride @ '')'',
                               ''}''] g)
                     else g_p direct g
                 | _ \<Rightarrow> g_p direct g)
        in g_p ''}'' g)"

definition generateMockMethod :: "renderer \<Rightarrow> string \<Rightarrow> string \<Rightarrow> Method \<Rightarrow> string \<Rightarrow> generator
    \<Rightarrow> panic + generator" where
  "generateMockMethod String mockType typeParamNames method pkgOverride g =
     (case argDataFor String method (packageMap g) pkgOverride of
        (args, argNames, argTypes, returnTypes) \<Rightarrow>
        let g = g_p (''func (mock *'' @ mockType @ typeParamNames @ '') '' @ MethodName method
                       @ ''('' @ join args @ '') (''
                       @ join (stringSliceFrom String returnTypes (packageMap g) pkgOverride)
                       @ '') {'') g;
            g = ps [''if mock == nil {'',
                    tab @ ''panic('' @ dquote @ ''mock must not be nil. Use myMock := New''
                      @ mockType @ ''().'' @ dquote @ '')'',
                    ''}''] g
        in andThen (GenerateParamsDeclaration argNames (Variadic method \<noteq> None) g) (\<lambda>g.
             let reflectReturnTypes =
                   map (\<lambda>returnType. ''reflect.TypeOf(('' @ ''*''
                          @ String returnType (packageMap g) pkgOverride @ '')(nil)).Elem()'')
                     returnTypes;
                 resultAssignment = (if length (Out method) > 0 then ''_result :='' else []);
                 g = g_p (resultAssignment @ '' pegomock.GetGenericMockFrom(mock).Invoke(''
                            @ dquote @ MethodName method @ dquote
                            @ '', _params, []reflect.Type{''
                            @ Join reflectReturnTypes '', '' @ ''})'') g;
                 g = (if length (Out method) > 0 then
                        let g = foldl (\<lambda>g (i, returnType).
                                  g_p (''var _ret'' @ Itoa i @ '' ''
                                        @ String returnType (packageMap g) pkgOverride) g)
                                  g (enumerate 0 returnTypes);
                            g = g_p ''if len(_result) != 0 {'' g;
                            g = foldl (assertResult String pkgOverride) g (enumerate 0 returnTypes);
                            returnValues = map (\<lambda>(i, returnType). ''_ret'' @ Itoa i)
                                             (enumerate 0 returnTypes);
                            g = g_p ''}'' g
                        in g_p (''return '' @ Join returnValues '', '') g
                      else g)
             in Inr (g_p ''}'' g)))"

definition verifierTypeLines :: "string \<Rightarrow> string \<Rightarrow> string \<Rightarrow> string list" where
  "verifierTypeLines interfaceName typeParams typeParamNames =
     [''type Verifier'' @ interfaceName @ typeParams @ '' struct {'',
         tab @ ''mock *'' @ interfaceName @ typeParamNames,
         tab @ ''invocationCountMatcher pegomock.InvocationCountMatcher'',
         tab @ ''inOrderContext *pegomock.InOrderContext'',
         tab @ ''timeout time.Duration'',
         ''}'',
         []]"

definition generateVerifierType :: "string \<Rightarrow> string \<Rightarrow> string \<Rightarrow> generator \<Rightarrow> generator" where
  "generateVerifierType interfaceName typeParams typeParamNames g =
     ps (verifierTypeLines interfaceName typeParams typeParamNames) g"

definition mockVerifyMethodsLines :: "string \<Rightarrow> string \<Rightarrow> string list" where
  "mockVerifyMethodsLines interfaceName typeParamNames =
     [''func (mock *'' @ interfaceName @ typeParamNames @ '') VerifyWasCalledOnce() *Verifier''
           @ interfaceName @ typeParamNames @ '' {'',
         tab @ ''return &Verifier'' @ interfaceName @ typeParamNames @ ''{'',
         tab @ tab @ ''mock: mock,'',
         tab @ tab @ ''invocationCountMatcher: pegomock.Times(1),'',
         tab @ ''}'',
         ''}'',
         [],
         ''func (mock *'' @ interfaceName @ typeParamNames
           @ '') VerifyWasCalled(invocationCountMatcher pegomock.InvocationCountMatcher) *Verifier''
           @ interfaceName @ typeParamNames @ '' {'',
         tab @ ''return &Verifier'' @ interfaceName @ typeParamNames @ ''{'',
         tab @ tab @ ''mock: mock,'',
         tab @ tab @ ''invocationCountMatcher: invocationCountMatcher,'',
         tab @ ''}'',
         ''}'',
         [],
         ''func (mock *'' @ interfaceName @ typeParamNames
           @ '') VerifyWasCalledInOrder(invocationCountMatcher pegomock.InvocationCountMatcher, ''
           @ ''inOrderContext *pegomock.InOrderContext) *Verifier''
           @ interfaceName @ typeParamNames @ '' {'',
         tab @ ''return &Verifier'' @ interfaceName @ typeParamNames @ ''{'',
         tab @ tab @ ''mock: mock,'',
         tab @ tab @ ''invocationCountMatcher: invocationCountMatcher,'',
         tab @ tab @ ''inOrderContext: inOrderContext,'',
         tab @ ''}'',
         ''}'',
         [],
         ''func (mock *'' @ interfaceName @ typeParamNames
           @ '') VerifyWasCalledEventually(invocationCountMatcher pegomock.InvocationCountMatcher, ''
           @ ''timeout time.Duration) *Verifier''
           @ interfaceName @ typeParamNames @ '' {'',
         tab @ ''return &Verifier'' @ interfaceName @ typeParamNames @ ''{'',
         tab @ tab @ ''mock: mock,'',
         tab @ tab @ ''invocationCountMatcher: invocationCountMatcher,'',
         tab @ tab @ ''timeout: timeout,'',
         tab @ ''}'',
         ''}'',
         []]"

definition generateMockVerifyMethods :: "string \<Rightarrow> string \<Rightarrow> generator \<Rightarrow> generator" where
  "generateMockVerifyMethods interfaceName typeParamNames g =
     ps (mockVerifyMethodsLines interfaceName typeParamNames) g"

definition generateVerifierMethod :: "string \<Rightarrow> string \<Rightarrow> Method \<Rightarrow> string \<Rightarrow> string
    \<Rightarrow> string list \<Rightarrow> string list \<Rightarrow> generator \<Rightarrow> panic + generator" where
  "generateVerifierMethod interfaceName typeParamNames method pkgOverride returnTypeString
       args argNames g =
     (let g = g_p (''func (verifier *Verifier'' @ interfaceName @ typeParamNames @ '') ''
                     @ MethodName method @ ''('' @ join args @ '') *'' @ returnTypeString
                     @ typeParamNames @ '' {'') g
      in andThen (GenerateParamsDeclaration argNames (Variadic method \<noteq> None) g) (\<lambda>g.
           Inr (ps [''methodInvocations := pegomock.GetGenericMockFrom(verifier.mock).Verify(''
                      @ ''verifier.inOrderContext, verifier.invocationCountMatcher, ''
                      @ dquote @ MethodName method @ dquote @ '', _params, verifier.timeout)'',
                    ''return &'' @ returnTypeString @ typeParamNames
                      @ ''{mock: verifier.mock, methodInvocations: methodInvocations}'',
                    ''}''] g)))"

definition ongoingVerificationTypeLines :: "string \<Rightarrow> string \<Rightarrow> string \<Rightarrow> string \<Rightarrow> string list" where
  "ongoingVerificationTypeLines interfaceName typeParams typeParamNames
       ongoingVerificationStructName =
     [''type '' @ ongoingVerificationStructName @ typeParams @ '' struct {'',
         ''mock *'' @ interfaceName @ typeParamNames,
         tab @ ''methodInvocations []pegomock.MethodInvocation'',
         ''}'',
         []]"

definition generateOngoingVerificationType :: "string \<Rightarrow> string \<Rightarrow> string \<Rightarrow> string \<Rightarrow> generator
    \<Rightarrow> generator" where
  "generateOngoingVerificationType interfaceName typeParams typeParamNames
       ongoingVerificationStructName g =
     ps (ongoingVerificationTypeLines interfaceName typeParams typeParamNames ongoingVerificationStructName) g"

definition generateOngoingVerificationGetCapturedArguments :: "string \<Rightarrow> string list
    \<Rightarrow> string list \<Rightarrow> string \<Rightarrow> generator \<Rightarrow> generator" where
  "generateOngoingVerificationGetCapturedArguments ongoingVerificationStructName argNames
       argTypes typeParamNames g =
     (let g = g_p (''func (c *'' @ ongoingVerificationStructName @ typeParamNames
                     @ '') GetCapturedArguments() ('' @ join argTypes @ '') {'') g;
          g = (if length argNames > 0 then
                 let indexedArgNames =
                       map (\<lambda>argName. argName @ ''[len('' @ argName @ '')-1]'') argNames;
                     g = g_p (join argNames @ '' := c.GetAllCapturedArguments()'') g
                 in g_p (''return '' @ Join indexedArgNames '', '') g
               else g);
          g = g_p ''}'' g
      in emptyLine g)"

text \<open>
  The loop of \<open>generateOngoingVerificationGetAllCapturedArguments\<close> over \<open>argTypes\<close>, on
  the index \<open>i\<close> and the types still to visit; the variadic branch ends with \<open>break\<close>.
\<close>

fun capturedLoop :: "nat \<Rightarrow> bool \<Rightarrow> nat \<Rightarrow> string list \<Rightarrow> generator \<Rightarrow> generator" where
  "capturedLoop numArgs isVariadic i [] g = g"
| "capturedLoop numArgs isVariadic i (argType # rest) g =
     (if isVariadic \<and> int i = int numArgs - 1 then
        (let variadicBasicType = Replace1 argType ''[]'' []
         in ps [''_param'' @ Itoa i @ '' = make([]'' @ argType @ '', len(c.methodInvocations))'',
                ''for u := 0; u < len(c.methodInvocations); u++ {'',
                ''_param'' @ Itoa i @ ''[u] = make([]'' @ variadicBasicType
                  @ '', len(_params)-'' @ Itoa i @ '')'',
                ''for x := '' @ Itoa i @ ''; x < len(_params); x++ {'',
                ''if _params[x][u] != nil {'',
                ''_param'' @ Itoa i @ ''[u][x-'' @ Itoa i @ ''] = _params[x][u].(''
                  @ variadicBasicType @ '')'',
                ''}'',
                ''}'',
                ''}''] g)
      else
        capturedLoop numArgs isVariadic (Suc i) rest
          (ps [''if len(_params) > '' @ Itoa i @ '' {'',
               ''_param'' @ Itoa i @ '' = make([]'' @ argType @ '', len(c.methodInvocations))'',
               ''for u, param := range _params['' @ Itoa i @ ''] {'',
               ''_param'' @ Itoa i @ ''[u]=param.('' @ argType @ '')'',
               ''}'',
               ''}''] g))"

definition generateOngoingVerificationGetAllCapturedArguments :: "string \<Rightarrow> string
    \<Rightarrow> string list \<Rightarrow> bool \<Rightarrow> generator \<Rightarrow> generator" where
  "generateOngoingVerificationGetAllCapturedArguments ongoingVerificationStructName
       typeParamNames argTypes isVariadic g =
     (let numArgs = length argTypes;
          argsAsArray = map (\<lambda>(i, argType). ''_param'' @ Itoa i @ '' []'' @ argType)
                          (enumerate 0 argTypes);
          g = g_p (''func (c *'' @ ongoingVerificationStructName @ typeParamNames
                     @ '') GetAllCapturedArguments() ('' @ Join argsAsArray '', '' @ '') {'') g;
          g = (if numArgs > 0 then
                 let g = g_p (''_params := pegomock.GetGenericMockFrom(c.mock)''
                                @ ''.GetInvocationParams(c.methodInvocations)'') g;
                     g = g_p ''if len(_params) > 0 {'' g;
                     g = capturedLoop numArgs isVariadic 0 argTypes g;
                     g = g_p ''}'' g
                 in g_p ''return'' g
               else g);
          g = g_p ''}'' g
      in emptyLine g)"

subsection \<open>The emission driver\<close>

definition generateMockFor :: "renderer \<Rightarrow> Interface \<Rightarrow> string \<Rightarrow> string \<Rightarrow> generator
    \<Rightarrow> panic + generator" where
  "generateMockFor String iface mockTypeName selfPackage g =
     (let typeParamNames =
            typeParamsStringFrom String (TypeParams iface) (packageMap g) selfPackage False;
          typeParams =
            typeParamsStringFrom String (TypeParams iface) (packageMap g) selfPackage True;
          g = generateMockType mockTypeName typeParams typeParamNames g
      in andThen
           (forEach (\<lambda>method g.
              andThen (generateMockMethod String mockTypeName typeParamNames method selfPackage g)
                (\<lambda>g. Inr (emptyLine g)))
              (Methods iface) g)
           (\<lambda>g.
              let g = generateMockVerifyMethods mockTypeName typeParamNames g;
                  g = generateVerifierType mockTypeName typeParams typeParamNames g
              in forEach (\<lambda>method g.
                   let ongoingVerificationTypeName =
                         mockTypeName @ ''_'' @ MethodName method @ ''_OngoingVerification''
                   in (case argDataFor String method (packageMap g) selfPackage of
                         (args, argNames, argTypes, returnTypes) \<Rightarrow>
                         andThen (generateVerifierMethod mockTypeName typeParamNames method
                                    selfPackage ongoingVerificationTypeName args argNames g)
                           (\<lambda>g.
                              let g = generateOngoingVerificationType mockTypeName typeParams
                                        typeParamNames ongoingVerificationTypeName g;
                                  g = generateOngoingVerificationGetCapturedArguments
                                        ongoingVerificationTypeName argNames argTypes
                                        typeParamNames g
                              in Inr (generateOngoingVerificationGetAllCapturedArguments
                                        ongoingVerificationTypeName typeParamNames argTypes
                                        (Variadic method \<noteq> None) g))))
                   (Methods iface) g))"

text \<open>
  The loop \<open>for packagePath, packageName := range nonVendorPackageMap\<close>. Go leaves the
  order in which \<open>range\<close> visits a map unspecified, and it may differ from one run to the
  next; \<open>rangeOrder\<close> is the order of one run, a list of the keys of the map.
\<close>

definition importLine :: "(string \<rightharpoonup> string) \<Rightarrow> string \<Rightarrow> generator \<Rightarrow> string \<Rightarrow> generator" where
  "importLine nonVendorPackageMap selfPackage g packagePath =
     (case nonVendorPackageMap packagePath of
        None \<Rightarrow> g
      | Some packageName \<Rightarrow>
          if packagePath \<noteq> selfPackage \<and> packagePath \<noteq> ''time'' \<and> packagePath \<noteq> ''reflect''
          then g_p (packageName @ '' '' @ Quote packagePath) g
          else g)"

definition rangeOrderOf :: "(string \<rightharpoonup> string) \<Rightarrow> string list \<Rightarrow> bool" where
  "rangeOrderOf m rangeOrder \<longleftrightarrow> distinct rangeOrder \<and> set rangeOrder = dom m"

definition generateCode :: "renderer \<Rightarrow> (Package \<Rightarrow> string list) \<Rightarrow> string list \<Rightarrow> string
    \<Rightarrow> Package \<Rightarrow> string \<Rightarrow> string \<Rightarrow> string \<Rightarrow> generator \<Rightarrow> panic + generator" where
  "generateCode String Imports rangeOrder source pkg structName pkgName selfPackage g =
     (let g = ps [''// Code generated by pegomock. DO NOT EDIT.'',
                  ''// Source: '' @ source,
                  []] g;
          importPaths = List.insert mockFrameworkImportPath (Imports pkg)
      in (case generateUniquePackageNamesFor importPaths of
            (pm, nonVendorPackageMap) \<Rightarrow>
            let g = g\<lparr>packageMap := pm\<rparr>;
                g = ps [''package '' @ pkgName,
                        [],
                        ''import ('',
                        dquote @ ''reflect'' @ dquote,
                        dquote @ ''time'' @ dquote] g;
                g = foldl (importLine nonVendorPackageMap selfPackage) g rangeOrder;
                g = foldl (\<lambda>g packagePath. g_p (''. '' @ Quote packagePath) g) g (DotImports pkg);
                g = g_p '')'' g
            in forEach (\<lambda>iface g.
                 let sName = structName;
                     sName = (if sName = [] then ''Mock'' @ InterfaceName iface else sName)
                 in generateMockFor String iface sName selfPackage g)
                 (Interfaces pkg) g))"

text \<open>
  \<open>format.Source\<close> of go/format is a parameter: it returns the formatted bytes
  (\<open>Inr\<close>) or the text of its error (\<open>Inl\<close>).
\<close>

definition formattedOutput :: "(string \<Rightarrow> string + string) \<Rightarrow> generator \<Rightarrow> panic + string" where
  "formattedOutput Source g =
     (case Source (buf g) of
        Inl err \<Rightarrow> Inl (FormatFailure (''Failed to format generated source code: '' @ err
                                        @ [newline] @ buf g))
      | Inr src \<Rightarrow> Inr src)"

definition GenerateOutput :: "renderer \<Rightarrow> (Package \<Rightarrow> string list) \<Rightarrow> (string \<Rightarrow> string + string)
    \<Rightarrow> string list \<Rightarrow> Package \<Rightarrow> string \<Rightarrow> string \<Rightarrow> string \<Rightarrow> string \<Rightarrow> panic + string" where
  "GenerateOutput String Imports Source rangeOrder ast source nameOut packageOut selfPackage =
     (let g = \<lparr>buf = [], packageMap = Map.empty\<rparr>
      in andThen (generateCode String Imports rangeOrder source ast nameOut packageOut selfPackage g)
           (formattedOutput Source))"

subsection \<open>The lines the emitters write\<close>

text \<open>
  The text of each emitter as a list of lines, for stating what is written to the buffer.
  They are shown equal to the emitters' output below.
\<close>

definition paramsLines :: "string list \<Rightarrow> bool \<Rightarrow> string list" where
  "paramsLines argNames isVariadic =
     (if isVariadic then
        [''_params := []pegomock.Param{'' @ Join (butlast argNames) '', '' @ ''}'',
         ''for _, param := range '' @ last argNames @ '' {'',
         ''_params = append(_params, param)'',
         ''}'']
      else [''_params := []pegomock.Param{'' @ join argNames @ ''}''])"

definition assertLines :: "renderer \<Rightarrow> (string \<rightharpoonup> string) \<Rightarrow> string \<Rightarrow> nat \<times> Type \<Rightarrow> string list" where
  "assertLines String pm po it =
     (case it of (i, t) \<Rightarrow>
        [''if _result['' @ Itoa i @ ''] != nil {'']
        @ (case t of
             ChanType dir elem \<Rightarrow>
               if dir \<noteq> 0 then
                 [''var ok bool'',
                  ''  _ret'' @ Itoa i @ '', ok = _result['' @ Itoa i @ ''].(''
                    @ String (ChanType 0 elem) pm po @ '')'',
                  ''if !ok{'',
                  ''_ret'' @ Itoa i @ '' = _result['' @ Itoa i @ ''].(''
                    @ String (ChanType dir elem) pm po @ '')'',
                  ''}'']
               else [''_ret'' @ Itoa i @ ''  = _result['' @ Itoa i @ ''].(''
                       @ String t pm po @ '')'']
           | _ \<Rightarrow> [''_ret'' @ Itoa i @ ''  = _result['' @ Itoa i @ ''].(''
                       @ String t pm po @ '')''])
        @ [''}''])"

definition mockMethodHead :: "renderer \<Rightarrow> (string \<rightharpoonup> string) \<Rightarrow> string \<Rightarrow> string \<Rightarrow> Method
    \<Rightarrow> string \<Rightarrow> string list" where
  "mockMethodHead String pm mockType typeParamNames method po =
     [''func (mock *'' @ mockType @ typeParamNames @ '') '' @ MethodName method
        @ ''('' @ join (fst (argDataFor String method pm po)) @ '') (''
        @ join (stringSliceFrom String (map ParamType (Out method)) pm po) @ '') {'',
      ''if mock == nil {'',
      tab @ ''panic('' @ dquote @ ''mock must not be nil. Use myMock := New''
        @ mockType @ ''().'' @ dquote @ '')'',
      ''}'']
     @ paramsLines (fst (snd (argDataFor String method pm po))) (Variadic method \<noteq> None)
     @ [(if Out method \<noteq> [] then ''_result :='' else [])
          @ '' pegomock.GetGenericMockFrom(mock).Invoke(''
          @ dquote @ MethodName method @ dquote @ '', _params, []reflect.Type{''
          @ Join (map (\<lambda>returnType. ''reflect.TypeOf(('' @ ''*''
                    @ String returnType pm po @ '')(nil)).Elem()'')
                   (map ParamType (Out method))) '', ''
          @ ''})'']"

definition mockMethodLines :: "renderer \<Rightarrow> (string \<rightharpoonup> string) \<Rightarrow> string \<Rightarrow> string \<Rightarrow> Method
    \<Rightarrow> string \<Rightarrow> string list" where
  "mockMethodLines String pm mockType typeParamNames method po =
     (let its = enumerate 0 (map ParamType (Out method))
      in mockMethodHead String pm mockType typeParamNames method po
         @ (if Out method \<noteq> [] then
              map (\<lambda>(i, returnType). ''var _ret'' @ Itoa i @ '' '' @ String returnType pm po) its
              @ [''if len(_result) != 0 {'']
              @ concat (map (assertLines String pm po) its)
              @ [''}'',
                 ''return '' @ Join (map (\<lambda>(i, returnType). ''_ret'' @ Itoa i) its) '', '']
            else [])
         @ [''}''])"

subsection \<open>What the emitted statements compute\<close>

text \<open>
  The statements \<open>GenerateParamsDeclaration\<close> emits, read as the Go they are:
  \<open>_params := []pegomock.Param{a1, ..., ak}\<close> and, for a variadic method, the loop
  \<open>for _, param := range v { _params = append(_params, param) }\<close>. The arguments are
  the values of the fixed parameters and of the variadic slot of one call.
\<close>

definition runParamsDeclaration :: "'v list \<Rightarrow> 'v list option \<Rightarrow> 'v list" where
  "runParamsDeclaration fixedArgs variadicSlot =
     (let params = fixedArgs
      in case variadicSlot of
           None \<Rightarrow> params
         | Some slot \<Rightarrow> foldl (\<lambda>params param. params @ [param]) params slot)"

text \<open>
  The statements \<open>generateMockMethod\<close> emits for the results, read as the Go they are:
  one holder per output, declared with its zero value; then, only if \<open>_result\<close> is not
  empty, for each position whose slot is not nil, the type assertion of the slot into the
  holder. \<open>zeros\<close> are the zero values of the output types, \<open>assertTo i\<close> is the type
  assertion at position \<open>i\<close> (\<open>None\<close> when it panics), and a nil slot is \<open>None\<close>.
\<close>

datatype runtimePanic = IndexOutOfRange | AssertionFailed | NegativeLength

definition unpackSlot :: "(nat \<Rightarrow> 'r \<Rightarrow> 'v option) \<Rightarrow> 'r option list
    \<Rightarrow> runtimePanic + 'v list \<Rightarrow> nat \<Rightarrow> runtimePanic + 'v list" where
  "unpackSlot assertTo result rets i =
     (case rets of
        Inl e \<Rightarrow> Inl e
      | Inr holders \<Rightarrow>
          if length result \<le> i then Inl IndexOutOfRange
          else (case result ! i of
                  None \<Rightarrow> Inr holders
                | Some r \<Rightarrow>
                    (case assertTo i r of
                       None \<Rightarrow> Inl AssertionFailed
                     | Some v \<Rightarrow> Inr (holders[i := v]))))"

definition runResultUnpack :: "'v list \<Rightarrow> (nat \<Rightarrow> 'r \<Rightarrow> 'v option) \<Rightarrow> 'r option list
    \<Rightarrow> runtimePanic + 'v list" where
  "runResultUnpack zeros assertTo result =
     (let holders = zeros
      in if length result \<noteq> 0
         then foldl (unpackSlot assertTo result) (Inr holders) [0..<length zeros]
         else Inr holders)"

text \<open>Two methods and a renderer to run the emitters on.\<close>

definition exampleString :: renderer where
  "exampleString t pm po =
     (case t of
        ChanType dir elem \<Rightarrow> (if dir = 0 then ''chan int'' else ''<-chan int'')
      | _ \<Rightarrow> ''string'')"

definition exampleGet :: Method where
  "exampleGet =
     \<lparr>MethodName = ''Get'',
      In = [\<lparr>ParamName = ''key'', ParamType = NamedType [] ''string''\<rparr>],
      Variadic = None,
      Out = [\<lparr>ParamName = ''value'', ParamType = NamedType [] ''string''\<rparr>,
             \<lparr>ParamName = ''more'', ParamType = ChanType 1 (NamedType [] ''int'')\<rparr>]\<rparr>"

definition examplePush :: Method where
  "examplePush =
     \<lparr>MethodName = ''Push'',
      In = [\<lparr>ParamName = [], ParamType = NamedType [] ''string''\<rparr>],
      Variadic = Some \<lparr>ParamName = ''items'', ParamType = NamedType [] ''string''\<rparr>,
      Out = []\<rparr>"

text \<open>
  The blocks \<open>generateOngoingVerificationGetAllCapturedArguments\<close> writes for one
  non-variadic position and for the variadic position.
\<close>

definition fixedCaptureLines :: "nat \<times> string \<Rightarrow> string list" where
  "fixedCaptureLines it =
     (case it of (i, argType) \<Rightarrow>
        [''if len(_params) > '' @ Itoa i @ '' {'',
         ''_param'' @ Itoa i @ '' = make([]'' @ argType @ '', len(c.methodInvocations))'',
         ''for u, param := range _params['' @ Itoa i @ ''] {'',
         ''_param'' @ Itoa i @ ''[u]=param.('' @ argType @ '')'',
         ''}'',
         ''}''])"

definition variadicCaptureLines :: "nat \<Rightarrow> string \<Rightarrow> string list" where
  "variadicCaptureLines i argType =
     [''_param'' @ Itoa i @ '' = make([]'' @ argType @ '', len(c.methodInvocations))'',
      ''for u := 0; u < len(c.methodInvocations); u++ {'',
      ''_param'' @ Itoa i @ ''[u] = make([]'' @ Replace1 argType ''[]'' []
        @ '', len(_params)-'' @ Itoa i @ '')'',
      ''for x := '' @ Itoa i @ ''; x < len(_params); x++ {'',
      ''if _params[x][u] != nil {'',
      ''_param'' @ Itoa i @ ''[u][x-'' @ Itoa i @ ''] = _params[x][u].(''
        @ Replace1 argType ''[]'' [] @ '')'',
      ''}'',
      ''}'',
      ''}'']"

text \<open>
  The statements emitted for the variadic position \<open>i\<close>, read as the Go they are, inside
  \<open>if len(_params) > 0\<close>:
  \<^verbatim>\<open>
  _param<i> = make([][]T, len(c.methodInvocations))
  for u := 0; u < len(c.methodInvocations); u++ {
      _param<i>[u] = make([]T, len(_params)-<i>)
      for x := <i>; x < len(_params); x++ {
          if _params[x][u] != nil { _param<i>[u][x-<i>] = _params[x][u].(T) }
      }
  }
  \<close>
  \<open>params\<close> is the matrix \<open>_params\<close> the emitted code is handed (one column per
  parameter position, one row per invocation, a nil cell being \<open>None\<close>), \<open>zero\<close> the
  zero value of \<open>T\<close> that \<open>make\<close> fills with. The cells are values of \<open>T\<close>, so the
  assertion \<open>.(T)\<close> succeeds. A \<open>make\<close> with a negative length and an index past the
  end of a column panic. When the guard \<open>len(_params) > 0\<close> fails, \<open>_param<i>\<close> keeps
  its initial value, the nil slice, which has no element.
\<close>

definition captureInner :: "'v \<Rightarrow> nat \<Rightarrow> 'v option list list \<Rightarrow> nat \<Rightarrow> 'v list" where
  "captureInner zero i params u =
     foldl (\<lambda>inner x. case params ! x ! u of
                         None \<Rightarrow> inner
                       | Some v \<Rightarrow> inner[x - i := v])
       (replicate (length params - i) zero) [i..<length params]"

definition runVariadicCapture :: "'v \<Rightarrow> nat \<Rightarrow> nat \<Rightarrow> 'v option list list
    \<Rightarrow> runtimePanic + 'v list list" where
  "runVariadicCapture zero i numInvocations params =
     (if length params > 0 then
        (if numInvocations > 0 \<and> length params < i then Inl NegativeLength
         else if list_ex (\<lambda>x. length (params ! x) < numInvocations) [i..<length params]
         then Inl IndexOutOfRange
         else Inr (map (captureInner zero i params) [0..<numInvocations]))
      else Inr [])"

subsection \<open>The lines the driver writes\<close>

definition verifierMethodLines :: "string \<Rightarrow> string \<Rightarrow> Method \<Rightarrow> string \<Rightarrow> string list
    \<Rightarrow> string list \<Rightarrow> string list" where
  "verifierMethodLines interfaceName typeParamNames method returnTypeString args argNames =
     [''func (verifier *Verifier'' @ interfaceName @ typeParamNames @ '') ''
        @ MethodName method @ ''('' @ join args @ '') *'' @ returnTypeString
        @ typeParamNames @ '' {'']
     @ paramsLines argNames (Variadic method \<noteq> None)
     @ [''methodInvocations := pegomock.GetGenericMockFrom(verifier.mock).Verify(''
          @ ''verifier.inOrderContext, verifier.invocationCountMatcher, ''
          @ dquote @ MethodName method @ dquote @ '', _params, verifier.timeout)'',
        ''return &'' @ returnTypeString @ typeParamNames
          @ ''{mock: verifier.mock, methodInvocations: methodInvocations}'',
        ''}'']"

definition capturedArgumentsLines :: "string \<Rightarrow> string list \<Rightarrow> string list \<Rightarrow> string
    \<Rightarrow> string list" where
  "capturedArgumentsLines ongoingVerificationStructName argNames argTypes typeParamNames =
     [''func (c *'' @ ongoingVerificationStructName @ typeParamNames
        @ '') GetCapturedArguments() ('' @ join argTypes @ '') {'']
     @ (if length argNames > 0 then
          [join argNames @ '' := c.GetAllCapturedArguments()'',
           ''return '' @ Join (map (\<lambda>argName. argName @ ''[len('' @ argName @ '')-1]'')
                                argNames) '', '']
        else [])
     @ [''}'', []]"

fun capturedLoopLines :: "nat \<Rightarrow> bool \<Rightarrow> nat \<Rightarrow> string list \<Rightarrow> string list" where
  "capturedLoopLines numArgs isVariadic i [] = []"
| "capturedLoopLines numArgs isVariadic i (argType # rest) =
     (if isVariadic \<and> int i = int numArgs - 1 then variadicCaptureLines i argType
      else fixedCaptureLines (i, argType) @ capturedLoopLines numArgs isVariadic (Suc i) rest)"

definition allCapturedLines :: "string \<Rightarrow> string \<Rightarrow> string list \<Rightarrow> bool \<Rightarrow> string list" where
  "allCapturedLines ongoingVerificationStructName typeParamNames argTypes isVariadic =
     [''func (c *'' @ ongoingVerificationStructName @ typeParamNames
        @ '') GetAllCapturedArguments() (''
        @ Join (map (\<lambda>(i, argType). ''_param'' @ Itoa i @ '' []'' @ argType)
                  (enumerate 0 argTypes)) '', ''
        @ '') {'']
     @ (if length argTypes > 0 then
          [''_params := pegomock.GetGenericMockFrom(c.mock)''
             @ ''.GetInvocationParams(c.methodInvocations)'',
           ''if len(_params) > 0 {'']
          @ capturedLoopLines (length argTypes) isVariadic 0 argTypes
          @ [''}'', ''return'']
        else [])
     @ [''}'', []]"

definition verificationLines :: "renderer \<Rightarrow> (string \<rightharpoonup> string) \<Rightarrow> string \<Rightarrow> string \<Rightarrow> string
    \<Rightarrow> string \<Rightarrow> Method \<Rightarrow> string list" where
  "verificationLines String pm mockTypeName typeParams typeParamNames selfPackage method =
     (let ongoingVerificationTypeName =
            mockTypeName @ ''_'' @ MethodName method @ ''_OngoingVerification''
      in (case argDataFor String method pm selfPackage of
            (args, argNames, argTypes, returnTypes) \<Rightarrow>
              verifierMethodLines mockTypeName typeParamNames method
                ongoingVerificationTypeName args argNames
              @ ongoingVerificationTypeLines mockTypeName typeParams typeParamNames
                  ongoingVerificationTypeName
              @ capturedArgumentsLines ongoingVerificationTypeName argNames argTypes
                  typeParamNames
              @ allCapturedLines ongoingVerificationTypeName typeParamNames argTypes
                  (Variadic method \<noteq> None)))"

definition mockForLines :: "renderer \<Rightarrow> (string \<rightharpoonup> string) \<Rightarrow> Interface \<Rightarrow> string \<Rightarrow> string
    \<Rightarrow> string list" where
  "mockForLines String pm iface mockTypeName selfPackage =
     (let typeParamNames = typeParamsStringFrom String (TypeParams iface) pm selfPackage False;
          typeParams = typeParamsStringFrom String (TypeParams iface) pm selfPackage True
      in mockTypeLines mockTypeName typeParams typeParamNames
         @ concat (map (\<lambda>method.
                     mockMethodLines String pm mockTypeName typeParamNames method selfPackage
                     @ [[]])
                   (Methods iface))
         @ mockVerifyMethodsLines mockTypeName typeParamNames
         @ verifierTypeLines mockTypeName typeParams typeParamNames
         @ concat (map (verificationLines String pm mockTypeName typeParams typeParamNames
                          selfPackage)
                   (Methods iface)))"

definition importText :: "(string \<rightharpoonup> string) \<Rightarrow> string \<Rightarrow> string \<Rightarrow> string list" where
  "importText nonVendorPackageMap selfPackage packagePath =
     (case nonVendorPackageMap packagePath of
        None \<Rightarrow> []
      | Some packageName \<Rightarrow>
          if packagePath \<noteq> selfPackage \<and> packagePath \<noteq> ''time'' \<and> packagePath \<noteq> ''reflect''
          then [packageName @ '' '' @ Quote packagePath]
          else [])"

definition codeHead :: "string \<Rightarrow> string \<Rightarrow> string list" where
  "codeHead source pkgName =
     [''// Code generated by pegomock. DO NOT EDIT.'',
      ''// Source: '' @ source,
      [],
      ''package '' @ pkgName,
      [],
      ''import ('',
      dquote @ ''reflect'' @ dquote,
      dquote @ ''time'' @ dquote]"

definition codeTail :: "renderer \<Rightarrow> (string \<rightharpoonup> string) \<Rightarrow> Package \<Rightarrow> string \<Rightarrow> string
    \<Rightarrow> string list" where
  "codeTail String pm pkg structName selfPackage =
     map (\<lambda>packagePath. ''. '' @ Quote packagePath) (DotImports pkg)
     @ ['')'']
     @ concat (map (\<lambda>iface.
                 mockForLines String pm iface
                   (if structName = [] then ''Mock'' @ InterfaceName iface else structName)
                   selfPackage)
               (Interfaces pkg))"

text \<open>The buffer of a run, or nothing when the run panics.\<close>

definition bufOf :: "panic + generator \<Rightarrow> string option" where
  "bufOf r = (case r of Inl e \<Rightarrow> None | Inr g \<Rightarrow> Some (buf g))"

text \<open>
  A renderer that qualifies a named type with the alias of its module, and a package with
  one interface, \<open>Fetch(body io.Reader) http.Handler\<close>, that refers to two modules; its
  \<open>Imports\<close>, in the two orders in which the keys can be discovered.
\<close>

fun exampleQualified :: renderer where
  "exampleQualified (NamedType modulePath name) pm po =
     (if modulePath = [] \<or> modulePath = po then name
      else (case pm modulePath of None \<Rightarrow> name | Some alias \<Rightarrow> alias @ ''.'' @ name))"
| "exampleQualified (PointerType t) pm po = ''*'' @ exampleQualified t pm po"
| "exampleQualified (SliceType t) pm po = ''[]'' @ exampleQualified t pm po"
| "exampleQualified t pm po = ''any''"

definition examplePackage :: Package where
  "examplePackage =
     \<lparr>Interfaces =
        [\<lparr>InterfaceName = ''Fetcher'',
          Methods =
            [\<lparr>MethodName = ''Fetch'',
              In = [\<lparr>ParamName = ''body'', ParamType = NamedType ''io'' ''Reader''\<rparr>],
              Variadic = None,
              Out = [\<lparr>ParamName = [], ParamType = NamedType ''net/http'' ''Handler''\<rparr>]\<rparr>],
          TypeParams = []\<rparr>],
      DotImports = []\<rparr>"

definition exampleImports :: "Package \<Rightarrow> string list" where
  "exampleImports pkg = [''io'', ''net/http'']"

definition exampleImportsReversed :: "Package \<Rightarrow> string list" where
  "exampleImportsReversed pkg = [''net/http'', ''io'']"

text \<open>A package with two interfaces without methods or type parameters.\<close>

definition exampleTwoInterfaces :: Package where
  "exampleTwoInterfaces =
     \<lparr>Interfaces = [\<lparr>InterfaceName = ''Reader'', Methods = [], TypeParams = []\<rparr>,
                    \<lparr>InterfaceName = ''Writer'', Methods = [], TypeParams = []\<rparr>],
      DotImports = []\<rparr>"

subsection \<open>The formatting pass\<close>

text \<open>
  \<open>format.Source\<close> of go/format parses the buffer, sorts the import specs of the file
  (\<open>ast.SortImports\<close>) and prints it. Of these steps the sorting is modelled, on the text
  the generator writes, where an import block opens with the line \<open>import (\<close>, closes
  with the line \<open>)\<close> and has one spec per line: inside a block, every run of specs on
  consecutive lines (a blank line ends the run) is sorted by import path, then by name,
  and a spec that repeats the one before it is dropped. Specs that agree in path and name
  are ordered by their text. Parsing and printing are not modelled: they are a parameter
  \<open>Printer\<close>, applied to the buffer with its import blocks sorted.
\<close>

text \<open>The lines of a text, each ended by a newline, and a last line that is not.\<close>

fun linesFrom :: "string \<Rightarrow> string \<Rightarrow> string list" where
  "linesFrom line [] = (if line = [] then [] else [line])"
| "linesFrom line (c # cs) =
     (if c = newline then line # linesFrom [] cs else linesFrom (line @ [c]) cs)"

text \<open>
  The import path of a spec \<open>name "path"\<close>, \<open>. "path"\<close> or \<open>"path"\<close>, the text between
  the quotes as it is written, and its name.
\<close>

definition specPath :: "string \<Rightarrow> string" where
  "specPath spec = butlast (tl (dropWhile (\<lambda>c. c \<noteq> CHR 0x22) spec))"

definition specName :: "string \<Rightarrow> string" where
  "specName spec = takeWhile (\<lambda>c. c \<noteq> CHR 0x22 \<and> c \<noteq> CHR '' '') spec"

definition sortSpecs :: "string list \<Rightarrow> string list" where
  "sortSpecs run =
     remdups_adj (map snd (sort (map (\<lambda>spec. ((specPath spec, specName spec), spec)) run)))"

text \<open>
  One pass over the lines: \<open>inBlock\<close> tells whether an import block is open, \<open>run\<close> is
  the run of specs read so far.
\<close>

fun sortBlocks :: "bool \<Rightarrow> string list \<Rightarrow> string list \<Rightarrow> string list" where
  "sortBlocks inBlock run [] = sortSpecs run"
| "sortBlocks inBlock run (l # ls) =
     (if \<not> inBlock then l # sortBlocks (l = ''import ('') [] ls
      else if l = '')'' then sortSpecs run @ l # sortBlocks False [] ls
      else if l = [] then sortSpecs run @ l # sortBlocks True [] ls
      else sortBlocks True (run @ [l]) ls)"

definition SortImports :: "string \<Rightarrow> string" where
  "SortImports src = unlines (sortBlocks False [] (linesFrom [] src))"

text \<open>The bytes a run of \<open>GenerateOutput\<close> returns; a run that panics returns none.\<close>

definition outputOf :: "panic + string \<Rightarrow> string option" where
  "outputOf r = (case r of Inl e \<Rightarrow> None | Inr out \<Rightarrow> Some out)"

section \<open>Properties of the alias resolver\<close>

lemma nameLoop_free: "\<not> taken used (nameLoop used base packageName i)"
proof (induction used base packageName i rule: nameLoop.induct)
  case (1 used base packageName i)
  show ?case
  proof (cases "packageName \<in> set used \<or> IsKeyword packageName")
    case True
    with "1.IH" show ?thesis by (subst nameLoop.simps) simp
  next
    case False
    then show ?thesis by (subst nameLoop.simps) (simp add: taken_def)
  qed
qed

lemma assignAlias_eq:
  "assignAlias (pm, nv, used) x =
     (pm(x \<mapsto> aliasFor used x), nv(vendorCleaned x \<mapsto> aliasFor used x),
      List.insert (aliasFor used x) used)"
  by (simp add: assignAlias_def aliasFor_def Let_def)

lemma pegomock_not_keyword: "\<not> IsKeyword ''pegomock''"
  by (simp add: IsKeyword_def keywordTable_def)

lemma aliasFor_not_keyword: "\<not> IsKeyword (aliasFor used x)"
  using nameLoop_free [of used "sanitize (Base x)" "sanitize (Base x)" 0]
  by (simp add: aliasFor_def pegomock_not_keyword taken_def)

lemma aliasFor_fresh:
  "x \<noteq> mockFrameworkImportPath \<Longrightarrow> aliasFor used x \<notin> set used"
  using nameLoop_free [of used "sanitize (Base x)" "sanitize (Base x)" 0]
  by (simp add: aliasFor_def taken_def)

lemma foldl_assignAlias_agree_last:
  "sorted xs \<Longrightarrow> p \<in> set xs \<Longrightarrow>
   \<forall>q\<in>set xs. vendorCleaned q = vendorCleaned p \<longrightarrow> q \<le> p \<Longrightarrow>
   \<exists>a. fst (foldl assignAlias st xs) p = Some a \<and>
       fst (snd (foldl assignAlias st xs)) (vendorCleaned p) = Some a"
proof (induction xs rule: rev_induct)
  case Nil
  then show ?case by simp
next
  case (snoc x xs)
  obtain pm nv used where st: "foldl assignAlias st xs = (pm, nv, used)"
    by (cases "foldl assignAlias st xs") auto
  from snoc.prems(1) have srt: "sorted xs" and le: "\<forall>y\<in>set xs. y \<le> x"
    by (simp_all add: sorted_append)
  show ?case
  proof (cases "p = x")
    case True
    then show ?thesis by (simp add: st assignAlias_eq)
  next
    case False
    with snoc.prems have p: "p \<in> set xs" by simp
    with le have "p \<le> x" by blast
    with False snoc.prems(3) have vc: "vendorCleaned x \<noteq> vendorCleaned p"
      by auto
    from snoc.prems have "\<forall>q\<in>set xs. vendorCleaned q = vendorCleaned p \<longrightarrow> q \<le> p"
      by simp
    with snoc.IH srt p st obtain a where "pm p = Some a" "nv (vendorCleaned p) = Some a"
      by auto
    with False vc show ?thesis by (simp add: st assignAlias_eq)
  qed
qed

lemma foldl_assignAlias_not_keyword:
  "\<forall>p a. fst st p = Some a \<longrightarrow> \<not> IsKeyword a \<Longrightarrow>
   fst (foldl assignAlias st xs) p = Some a \<Longrightarrow> \<not> IsKeyword a"
proof (induction xs arbitrary: p a rule: rev_induct)
  case Nil
  then show ?case by simp
next
  case (snoc x xs)
  obtain pm nv used where st: "foldl assignAlias st xs = (pm, nv, used)"
    by (cases "foldl assignAlias st xs") auto
  show ?case
  proof (cases "p = x")
    case True
    with snoc.prems(2) have "a = aliasFor used x" by (simp add: st assignAlias_eq)
    then show ?thesis by (simp add: aliasFor_not_keyword)
  next
    case False
    with snoc.prems(2) have "fst (foldl assignAlias st xs) p = Some a"
      by (simp add: st assignAlias_eq)
    with snoc.IH snoc.prems(1) show ?thesis by blast
  qed
qed

lemma foldl_assignAlias_framework:
  "mockFrameworkImportPath \<in> set xs \<Longrightarrow>
   fst (foldl assignAlias st xs) mockFrameworkImportPath = Some ''pegomock''"
proof (induction xs rule: rev_induct)
  case Nil
  then show ?case by simp
next
  case (snoc x xs)
  obtain pm nv used where st: "foldl assignAlias st xs = (pm, nv, used)"
    by (cases "foldl assignAlias st xs") auto
  show ?case
  proof (cases "x = mockFrameworkImportPath")
    case True
    then show ?thesis by (simp add: st assignAlias_eq aliasFor_def)
  next
    case False
    with snoc show ?thesis by (simp add: st assignAlias_eq)
  qed
qed

text \<open>
  The parts of the collision-freedom property that hold of every input: no alias is a
  keyword, and the runtime-support path gets the alias \<open>pegomock\<close>.
\<close>

lemma alias_never_keyword:
  "fst (generateUniquePackageNamesFor importPaths) p = Some a \<Longrightarrow> \<not> IsKeyword a"
  using foldl_assignAlias_not_keyword
    [of "(Map.empty, Map.empty, [])" "sort importPaths" p a]
  by (simp add: generateUniquePackageNamesFor_def Let_def)

lemma framework_alias_fixed:
  "mockFrameworkImportPath \<in> set importPaths \<Longrightarrow>
   fst (generateUniquePackageNamesFor importPaths) mockFrameworkImportPath = Some ''pegomock''"
  using foldl_assignAlias_framework [of "sort importPaths" "(Map.empty, Map.empty, [])"]
  by (simp add: generateUniquePackageNamesFor_def Let_def)

text \<open>
  The keys \<open>lo.Keys\<close> returns are distinct, and two runs return the same keys in
  whatever order; sorted, they are the same list.
\<close>

lemma sort_keys_unique:
  "distinct ks1 \<Longrightarrow> distinct ks2 \<Longrightarrow> set ks1 = set ks2 \<Longrightarrow> sort ks1 = sort (ks2 :: string list)"
  by (rule sorted_distinct_set_unique) simp_all

lemma aliases_of_key_set:
  "distinct ks1 \<Longrightarrow> distinct ks2 \<Longrightarrow> set ks1 = set ks2 \<Longrightarrow>
   generateUniquePackageNamesFor ks1 = generateUniquePackageNamesFor ks2"
  by (simp add: generateUniquePackageNamesFor_def sort_keys_unique [of ks1 ks2])

text \<open>
  The uniqueness loop does its work everywhere else: two paths of the input get the same
  alias only if the alias is \<open>pegomock\<close> and one of them is the runtime-support path.
\<close>

lemma collisionFree_step:
  assumes inv: "collisionFree (pm, nv, used)" and fresh: "pm x = None"
  shows "collisionFree (assignAlias (pm, nv, used) x)"
proof -
  let ?a = "aliasFor used x"
  from inv have ran: "ran pm \<subseteq> set used"
    and col: "\<And>p q a. p \<noteq> q \<Longrightarrow> pm p = Some a \<Longrightarrow> pm q = Some a \<Longrightarrow>
           a = ''pegomock'' \<and> (p = mockFrameworkImportPath \<or> q = mockFrameworkImportPath)"
    by (auto simp: collisionFree_def)
  have new: "x \<noteq> mockFrameworkImportPath \<Longrightarrow> pm q \<noteq> Some ?a" for q
    using aliasFor_fresh [of x used] ran by (auto simp: ran_def)
  have hard: "x = mockFrameworkImportPath \<Longrightarrow> ?a = ''pegomock''"
    by (simp add: aliasFor_def)
  have "ran (pm(x \<mapsto> ?a)) \<subseteq> set (List.insert ?a used)"
    using ran fresh by (auto simp: ran_def)
  moreover have "a = ''pegomock'' \<and> (p = mockFrameworkImportPath \<or> q = mockFrameworkImportPath)"
    if "p \<noteq> q" "(pm(x \<mapsto> ?a)) p = Some a" "(pm(x \<mapsto> ?a)) q = Some a" for p q a
  proof (cases "p = x")
    case True
    with that have a: "a = ?a" and q: "pm q = Some ?a" by (auto split: if_splits)
    from q new have "x = mockFrameworkImportPath" by blast
    with a hard True show ?thesis by simp
  next
    case False
    show ?thesis
    proof (cases "q = x")
      case True
      with that False have a: "a = ?a" and p: "pm p = Some ?a" by (auto split: if_splits)
      from p new have "x = mockFrameworkImportPath" by blast
      with a hard True show ?thesis by simp
    next
      case q: False
      with False that show ?thesis using col [of p q a] by simp
    qed
  qed
  ultimately show ?thesis
    by (simp add: assignAlias_eq collisionFree_def)
qed

lemma dom_packageMap_foldl:
  "dom (fst (foldl assignAlias st xs)) = dom (fst st) \<union> set xs"
proof (induction xs rule: rev_induct)
  case Nil
  then show ?case by simp
next
  case (snoc x xs)
  obtain pm nv used where st: "foldl assignAlias st xs = (pm, nv, used)"
    by (cases "foldl assignAlias st xs") auto
  from snoc have "dom pm = dom (fst st) \<union> set xs"
    by (simp add: st)
  moreover have "fst (foldl assignAlias st (xs @ [x])) = pm(x \<mapsto> aliasFor used x)"
    by (simp add: st assignAlias_eq)
  ultimately show ?case by (simp only: dom_fun_upd) auto
qed

lemma collisionFree_foldl:
  "distinct xs \<Longrightarrow> collisionFree (foldl assignAlias (Map.empty, Map.empty, []) xs)"
proof (induction xs rule: rev_induct)
  case Nil
  then show ?case by (simp add: collisionFree_def)
next
  case (snoc x xs)
  obtain pm nv used where
    st: "foldl assignAlias (Map.empty, Map.empty, []) xs = (pm, nv, used)"
    by (cases "foldl assignAlias (Map.empty, Map.empty, []) xs") auto
  from snoc.prems have x: "x \<notin> set xs" and d: "distinct xs" by simp_all
  have "dom pm = set xs"
    using dom_packageMap_foldl [of "(Map.empty, Map.empty, [])" xs] by (simp add: st)
  with x have "pm x = None" by blast
  moreover from snoc.IH [OF d] have "collisionFree (pm, nv, used)" by (simp add: st)
  ultimately show ?case
    by (simp add: st collisionFree_step)
qed

lemma alias_collision_only_hardcoded:
  assumes "distinct importPaths" and "p \<noteq> q"
    and "fst (generateUniquePackageNamesFor importPaths) p = Some a"
    and "fst (generateUniquePackageNamesFor importPaths) q = Some a"
  shows "a = ''pegomock'' \<and> (p = mockFrameworkImportPath \<or> q = mockFrameworkImportPath)"
proof -
  obtain pm nv used where
    st: "foldl assignAlias (Map.empty, Map.empty, []) (sort importPaths) = (pm, nv, used)"
    by (cases "foldl assignAlias (Map.empty, Map.empty, []) (sort importPaths)") auto
  from assms(1) have "collisionFree (pm, nv, used)"
    using collisionFree_foldl [of "sort importPaths"] by (simp add: st)
  moreover from assms(3,4) have "pm p = Some a" "pm q = Some a"
    by (simp_all add: generateUniquePackageNamesFor_def Let_def st)
  ultimately show ?thesis
    using assms(2) unfolding collisionFree_def by blast
qed

text \<open>
  Claim C2. The aliases of \<open>generateUniquePackageNamesFor\<close> are meant to be pairwise
  distinct. They are not when a user module whose base name is \<open>pegomock\<close> sorts before
  the runtime-support path: the user module takes \<open>pegomock\<close> first, and the hardcoded
  alias is then assigned to the runtime-support path without looking at the names in use.
  On the import paths \<open>a/pegomock\<close> and \<open>github.com/petergtz/pegomock/v4\<close> both paths
  get the alias \<open>pegomock\<close>.
\<close>

theorem framework_alias_collides:
  "fst (generateUniquePackageNamesFor [''a/pegomock'', mockFrameworkImportPath]) ''a/pegomock''
     = Some ''pegomock'' \<and>
   fst (generateUniquePackageNamesFor [''a/pegomock'', mockFrameworkImportPath])
       mockFrameworkImportPath = Some ''pegomock'' \<and>
   ''a/pegomock'' \<noteq> mockFrameworkImportPath"
  by code_simp

text \<open>
  \<open>vendorCleaned\<close> is the second piece of the split: for a path with two \<open>/vendor/\<close>
  segments it is the text between them.
\<close>

lemma vendorCleaned_two_segments: "vendorCleaned ''a/vendor/b/vendor/c'' = ''b''"
  by code_simp

text \<open>
  The loop writes both maps with the one name it has settled on, the full-path map under
  the path and the vendor-stripped map under \<open>vendorCleaned\<close> of the path. Paths with the
  same vendor-cleaned key share one entry of the vendor-stripped map, and each of them
  overwrites it in turn: the entry ends up with the alias of the path that sorts last.
  For that path, and so for every path whose key no other path shares, the two views
  agree.
\<close>

lemma alias_views_agree_last:
  assumes "importPath \<in> set importPaths"
    and "\<forall>q\<in>set importPaths. vendorCleaned q = vendorCleaned importPath \<longrightarrow> q \<le> importPath"
  shows "\<exists>a. fst (generateUniquePackageNamesFor importPaths) importPath = Some a \<and>
             snd (generateUniquePackageNamesFor importPaths) (vendorCleaned importPath) = Some a"
  using foldl_assignAlias_agree_last
    [of "sort importPaths" importPath "(Map.empty, Map.empty, [])"] assms
  by (simp add: generateUniquePackageNamesFor_def Let_def)

text \<open>
  A vendored copy of the runtime-support module that sorts after the runtime-support path
  takes over its entry of the vendor-stripped map: the full-path map gives the
  runtime-support path the alias \<open>pegomock\<close>, which the generated code refers to, while
  the import line written from the vendor-stripped map declares it as \<open>v4\<close>.
\<close>

lemma vendored_runtime_support_alias:
  "fst (generateUniquePackageNamesFor
         [''x/vendor/github.com/petergtz/pegomock/v4'', ''github.com/petergtz/pegomock/v4''])
       ''github.com/petergtz/pegomock/v4'' = Some ''pegomock'' \<and>
   snd (generateUniquePackageNamesFor
         [''x/vendor/github.com/petergtz/pegomock/v4'', ''github.com/petergtz/pegomock/v4''])
       (vendorCleaned ''github.com/petergtz/pegomock/v4'') = Some ''v4''"
  by code_simp

text \<open>
  Claim C7. For every import path of the input set the two alias views are to agree: the
  alias the full-path map records for the path is to be the alias the vendor-stripped map
  records under \<open>vendorCleaned\<close> of it; import statements are written from the second
  view and types are rendered with the first. The code breaks this when two paths of the
  set have the same vendor-cleaned key and the path is not the one that sorts last. With
  \<open>a/vendor/foo\<close> and \<open>foo\<close> among the imports, \<open>a/vendor/foo\<close> is visited first and
  both maps record \<open>foo\<close> for it; \<open>foo\<close> is visited next, gets \<open>foo0\<close>, and overwrites
  the shared entry. The full-path map gives \<open>a/vendor/foo\<close> the alias \<open>foo\<close>, while the
  vendor-stripped map holds \<open>foo0\<close> under its key \<open>foo\<close>.
\<close>

theorem alias_views_disagree:
  "''a/vendor/foo'' \<in> set [''foo'', ''a/vendor/foo'', ''github.com/petergtz/pegomock/v4''] \<and>
   fst (generateUniquePackageNamesFor
         [''foo'', ''a/vendor/foo'', ''github.com/petergtz/pegomock/v4'']) ''a/vendor/foo''
     = Some ''foo'' \<and>
   snd (generateUniquePackageNamesFor
         [''foo'', ''a/vendor/foo'', ''github.com/petergtz/pegomock/v4''])
       (vendorCleaned ''a/vendor/foo'') = Some ''foo0''"
  by code_simp

section \<open>The buffer after each emitter\<close>

lemma ps_append: "ps (as @ bs) g = ps bs (ps as g)"
  by (induction as arbitrary: g) simp_all

lemma buf_ps: "buf (ps ls g) = buf g @ unlines ls"
  by (induction ls arbitrary: g) (simp_all add: unlines_def g_p_def)

lemma packageMap_ps: "packageMap (ps ls g) = packageMap g"
  by (induction ls arbitrary: g) (simp_all add: g_p_def)

lemma packageMap_g_p: "packageMap (g_p l g) = packageMap g"
  by (simp add: g_p_def)

lemma andThen_Inr: "andThen (Inr x) f = f x"
  by (simp add: andThen_def)

lemma forEach_ps:
  "(\<And>x g. body x g = Inr (ps (f (packageMap g) x) g)) \<Longrightarrow>
   forEach body xs g = Inr (ps (concat (map (f (packageMap g)) xs)) g)"
proof (induction xs arbitrary: g)
  case Nil
  then show ?case by simp
next
  case (Cons x xs)
  then show ?case by (simp add: andThen_Inr ps_append packageMap_ps)
qed

lemma map_snd_enumerate_fun: "map (\<lambda>p. f (snd p)) (enumerate n xs) = map f xs"
  by (induction xs arbitrary: n) simp_all

lemma argNames_argDataFor:
  "fst (snd (argDataFor String method pm po)) =
     map (\<lambda>(i, arg). argNameAt i arg) (enumerate 0 (In method))
       @ (case Variadic method of None \<Rightarrow> [] | Some v \<Rightarrow> [argNameAt (length (In method)) v])"
  by (simp add: argDataFor_def Let_def split: option.split)

lemma argTypes_argDataFor:
  "fst (snd (snd (argDataFor String method pm po))) =
     map (\<lambda>arg. String (ParamType arg) pm po) (In method)
       @ (case Variadic method of None \<Rightarrow> []
          | Some v \<Rightarrow> [''[]'' @ String (ParamType v) pm po])"
  using map_snd_enumerate_fun [of "\<lambda>arg. String (ParamType arg) pm po" 0 "In method"]
  by (simp add: argDataFor_def Let_def case_prod_unfold split: option.split)

lemma returnTypes_argDataFor:
  "snd (snd (snd (argDataFor String method pm po))) = map ParamType (Out method)"
  by (simp add: argDataFor_def Let_def split: option.split)

lemma argNames_nonempty:
  "Variadic method \<noteq> None \<longrightarrow> fst (snd (argDataFor String method pm po)) \<noteq> []"
  by (auto simp: argNames_argDataFor)

lemma GenerateParamsDeclaration_ps:
  "isVariadic \<longrightarrow> argNames \<noteq> [] \<Longrightarrow>
   GenerateParamsDeclaration argNames isVariadic g = Inr (ps (paramsLines argNames isVariadic) g)"
  by (cases argNames rule: rev_cases)
     (simp_all add: GenerateParamsDeclaration_def paramsLines_def)

lemma assertResult_ps:
  "assertResult String po g it = ps (assertLines String (packageMap g) po it) g"
  by (cases it; cases "snd it")
     (simp_all add: assertResult_def assertLines_def Let_def g_p_def)

lemma foldl_assertResult:
  "foldl (assertResult String po) g its
     = ps (concat (map (assertLines String (packageMap g) po) its)) g"
  by (induction its arbitrary: g) (simp_all add: assertResult_ps ps_append packageMap_ps)

lemma foldl_indexed_lines:
  "foldl (\<lambda>g (i, returnType). g_p (f (packageMap g) i returnType) g) g its
     = ps (map (\<lambda>(i, returnType). f (packageMap g) i returnType) its) g"
proof (induction its arbitrary: g)
  case Nil
  then show ?case by simp
next
  case (Cons a its)
  obtain i t where a: "a = (i, t)" by (cases a)
  show ?case by (simp add: a Cons packageMap_g_p)
qed

lemma generateMockMethod_lines:
  "generateMockMethod String mockType typeParamNames method po g =
     Inr (ps (mockMethodLines String (packageMap g) mockType typeParamNames method po) g)"
proof -
  obtain args argNames argTypes returnTypes where
    ad: "argDataFor String method (packageMap g) po = (args, argNames, argTypes, returnTypes)"
    by (cases "argDataFor String method (packageMap g) po") auto
  have names: "Variadic method \<noteq> None \<longrightarrow> argNames \<noteq> []"
    using argNames_nonempty [of "method" "String" "packageMap g" po] by (simp add: ad)
  have rts: "returnTypes = map ParamType (Out method)"
    using returnTypes_argDataFor [of "String" "method" "packageMap g" po] by (simp add: ad)
  have dec: "foldl (\<lambda>g (i, returnType).
               g_p (''var _ret'' @ Itoa i @ '' '' @ String returnType (packageMap g) po) g) g' its
     = ps (map (\<lambda>(i, returnType). ''var _ret'' @ Itoa i @ '' ''
                 @ String returnType (packageMap g') po) its) g'" for g' its
    using foldl_indexed_lines
      [of "\<lambda>pm i returnType. ''var _ret'' @ Itoa i @ '' '' @ String returnType pm po" g' its]
    by simp
  show ?thesis
    unfolding generateMockMethod_def ad prod.case Let_def mockMethodLines_def mockMethodHead_def
    apply (subst GenerateParamsDeclaration_ps [OF names])
    apply (simp only: andThen_Inr)
    apply (simp only: dec foldl_assertResult)
    apply (simp add: ps_append packageMap_ps packageMap_g_p rts ad)
    done
qed

section \<open>The intercepting method and the capture accessors\<close>

lemma foldl_append_each: "foldl (\<lambda>params param. params @ [param]) ps0 vs = ps0 @ vs"
  by (induction vs arbitrary: ps0) simp_all

lemma Itoa_0: "Itoa 0 = ''0''"
  by (simp add: Itoa.simps [of 0] digit_def)

lemma Itoa_1: "Itoa (Suc 0) = ''1''"
  by (simp add: Itoa.simps [of "Suc 0"] digit_def)

text \<open>
  Claim C4. For a method with \<open>k\<close> fixed inputs and a variadic tail, the emitted
  parameter-vector construction lists the \<open>k\<close> fixed argument names (the declared name, or
  \<open>_paramN\<close> for an unnamed parameter) and then appends each element of the variadic slot
  in order; for a non-variadic method it lists the fixed argument names only. Read as Go,
  the emitted statements build the flat vector of the \<open>k\<close> fixed values followed by the
  \<open>n\<close> values of the variadic slot, \<open>k + n\<close> entries in all.
\<close>

theorem params_vector_flat:
  "GenerateParamsDeclaration (fst (snd (argDataFor String method pm po)))
       (Variadic method \<noteq> None) g =
     Inr (ps (case Variadic method of
                None \<Rightarrow>
                  [''_params := []pegomock.Param{''
                     @ join (map (\<lambda>(i, arg). argNameAt i arg) (enumerate 0 (In method))) @ ''}'']
              | Some v \<Rightarrow>
                  [''_params := []pegomock.Param{''
                     @ join (map (\<lambda>(i, arg). argNameAt i arg) (enumerate 0 (In method))) @ ''}'',
                   ''for _, param := range '' @ argNameAt (length (In method)) v @ '' {'',
                   ''_params = append(_params, param)'',
                   ''}'']) g) \<and>
   length (map (\<lambda>(i, arg). argNameAt i arg) (enumerate 0 (In method))) = length (In method) \<and>
   runParamsDeclaration fixedArgs (Some slot) = fixedArgs @ slot \<and>
   length (runParamsDeclaration fixedArgs (Some slot)) = length fixedArgs + length slot \<and>
   runParamsDeclaration fixedArgs None = fixedArgs"
proof -
  have "GenerateParamsDeclaration (fst (snd (argDataFor String method pm po)))
       (Variadic method \<noteq> None) g =
     Inr (ps (paramsLines (fst (snd (argDataFor String method pm po))) (Variadic method \<noteq> None)) g)"
    by (rule GenerateParamsDeclaration_ps) (rule argNames_nonempty)
  moreover have "paramsLines (fst (snd (argDataFor String method pm po))) (Variadic method \<noteq> None)
    = (case Variadic method of
                None \<Rightarrow>
                  [''_params := []pegomock.Param{''
                     @ join (map (\<lambda>(i, arg). argNameAt i arg) (enumerate 0 (In method))) @ ''}'']
              | Some v \<Rightarrow>
                  [''_params := []pegomock.Param{''
                     @ join (map (\<lambda>(i, arg). argNameAt i arg) (enumerate 0 (In method))) @ ''}'',
                   ''for _, param := range '' @ argNameAt (length (In method)) v @ '' {'',
                   ''_params = append(_params, param)'',
                   ''}''])"
    by (simp add: paramsLines_def argNames_argDataFor join_def split: option.split)
  ultimately show ?thesis
    by (simp add: runParamsDeclaration_def foldl_append_each)
qed

text \<open>
  Claim C5. In the intercepting method of a method with outputs, the assertion of result
  slot \<open>i\<close> is, for a channel type with a direction (\<open>Dir\<close> not 0), the two-step form:
  assert into the undirected channel type first and, if that fails, into the directional
  type; for every other return type it is one direct assertion.
\<close>

theorem channel_assertion_two_step:
  assumes "Out method \<noteq> []"
  shows "\<exists>pre. generateMockMethod String mockType typeParamNames method po g =
     Inr (ps (pre
        @ concat (map (\<lambda>(i, returnType).
            [''if _result['' @ Itoa i @ ''] != nil {'']
            @ (case returnType of
                 ChanType dir elem \<Rightarrow>
                   if dir \<noteq> 0 then
                     [''var ok bool'',
                      ''  _ret'' @ Itoa i @ '', ok = _result['' @ Itoa i @ ''].(''
                        @ String (ChanType 0 elem) (packageMap g) po @ '')'',
                      ''if !ok{'',
                      ''_ret'' @ Itoa i @ '' = _result['' @ Itoa i @ ''].(''
                        @ String (ChanType dir elem) (packageMap g) po @ '')'',
                      ''}'']
                   else [''_ret'' @ Itoa i @ ''  = _result['' @ Itoa i @ ''].(''
                           @ String returnType (packageMap g) po @ '')'']
               | _ \<Rightarrow> [''_ret'' @ Itoa i @ ''  = _result['' @ Itoa i @ ''].(''
                           @ String returnType (packageMap g) po @ '')''])
            @ [''}''])
          (enumerate 0 (map ParamType (Out method))))
        @ [''}'',
           ''return '' @ Join (map (\<lambda>(i, returnType). ''_ret'' @ Itoa i)
                                (enumerate 0 (map ParamType (Out method)))) '', '',
           ''}'']) g)"
proof -
  have al: "(\<lambda>(i, returnType).
            [''if _result['' @ Itoa i @ ''] != nil {'']
            @ (case returnType of
                 ChanType dir elem \<Rightarrow>
                   if dir \<noteq> 0 then
                     [''var ok bool'',
                      ''  _ret'' @ Itoa i @ '', ok = _result['' @ Itoa i @ ''].(''
                        @ String (ChanType 0 elem) (packageMap g) po @ '')'',
                      ''if !ok{'',
                      ''_ret'' @ Itoa i @ '' = _result['' @ Itoa i @ ''].(''
                        @ String (ChanType dir elem) (packageMap g) po @ '')'',
                      ''}'']
                   else [''_ret'' @ Itoa i @ ''  = _result['' @ Itoa i @ ''].(''
                           @ String returnType (packageMap g) po @ '')'']
               | _ \<Rightarrow> [''_ret'' @ Itoa i @ ''  = _result['' @ Itoa i @ ''].(''
                           @ String returnType (packageMap g) po @ '')''])
            @ [''}'']) = assertLines String (packageMap g) po"
    by (rule ext) (simp add: assertLines_def split: prod.split Type.split)
  let ?its = "enumerate 0 (map ParamType (Out method))"
  let ?pre = "mockMethodHead String (packageMap g) mockType typeParamNames method po
      @ map (\<lambda>(i, returnType). ''var _ret'' @ Itoa i @ '' ''
               @ String returnType (packageMap g) po) ?its
      @ [''if len(_result) != 0 {'']"
  have "mockMethodLines String (packageMap g) mockType typeParamNames method po
      = ?pre @ concat (map (assertLines String (packageMap g) po) ?its)
        @ [''}'', ''return '' @ Join (map (\<lambda>(i, returnType). ''_ret'' @ Itoa i) ?its) '', '',
           ''}'']"
    using assms by (simp add: mockMethodLines_def Let_def)
  then have "generateMockMethod String mockType typeParamNames method po g
      = Inr (ps (?pre @ concat (map (assertLines String (packageMap g) po) ?its)
        @ [''}'', ''return '' @ Join (map (\<lambda>(i, returnType). ''_ret'' @ Itoa i) ?its) '', '',
           ''}'']) g)"
    by (simp only: generateMockMethod_lines)
  then show ?thesis
    unfolding al by (rule exI [of _ ?pre])
qed

text \<open>
  Witness for C5: \<open>Get(key string) (string, <-chan int)\<close>; slot 0 gets the direct
  assertion, slot 1 the two-step one.
\<close>

theorem channel_assertion_two_step_witness:
  "Out exampleGet \<noteq> [] \<and>
   (\<exists>pre. generateMockMethod exampleString ''MockThing'' [] exampleGet []
            \<lparr>buf = [], packageMap = Map.empty\<rparr> =
      Inr (ps (pre @
        [''if _result[0] != nil {'',
         ''_ret0  = _result[0].(string)'',
         ''}'',
         ''if _result[1] != nil {'',
         ''var ok bool'',
         ''  _ret1, ok = _result[1].(chan int)'',
         ''if !ok{'',
         ''_ret1 = _result[1].(<-chan int)'',
         ''}'',
         ''}'',
         ''}'',
         ''return _ret0, _ret1'',
         ''}'']) \<lparr>buf = [], packageMap = Map.empty\<rparr>))"
proof -
  have h: "Out exampleGet \<noteq> []"
    by (simp add: exampleGet_def)
  from channel_assertion_two_step [OF h, of exampleString "''MockThing''" "[]" "[]"
      "\<lparr>buf = [], packageMap = Map.empty\<rparr>"]
  show ?thesis
    by (simp add: h exampleGet_def exampleString_def Itoa_0 Itoa_1)
qed

text \<open>
  Claim C6. For a method with at least one output, the intercepting method declares one
  holder per output, zero-valued, after the call into the runtime and before any
  assertion; every assertion of slot \<open>i\<close> sits inside \<open>if _result[i] != nil\<close>, and all
  of them inside \<open>if len(_result) != 0\<close>. Read as Go, an empty result vector yields the
  zero values, whatever the type assertions would have done.
\<close>

theorem result_holders_guarded:
  assumes "Out method \<noteq> []"
  shows "(\<exists>params asserts.
     generateMockMethod String mockType typeParamNames method po g =
       Inr (ps (
         [''func (mock *'' @ mockType @ typeParamNames @ '') '' @ MethodName method
            @ ''('' @ join (fst (argDataFor String method (packageMap g) po)) @ '') (''
            @ join (stringSliceFrom String (map ParamType (Out method)) (packageMap g) po)
            @ '') {'',
          ''if mock == nil {'',
          tab @ ''panic('' @ dquote @ ''mock must not be nil. Use myMock := New''
            @ mockType @ ''().'' @ dquote @ '')'',
          ''}'']
         @ params
         @ [''_result := pegomock.GetGenericMockFrom(mock).Invoke(''
              @ dquote @ MethodName method @ dquote @ '', _params, []reflect.Type{''
              @ Join (map (\<lambda>returnType. ''reflect.TypeOf(('' @ ''*''
                        @ String returnType (packageMap g) po @ '')(nil)).Elem()'')
                       (map ParamType (Out method))) '', ''
              @ ''})'']
         @ map (\<lambda>(i, returnType). ''var _ret'' @ Itoa i @ '' ''
                  @ String returnType (packageMap g) po)
             (enumerate 0 (map ParamType (Out method)))
         @ [''if len(_result) != 0 {'']
         @ concat (map (\<lambda>(i, returnType).
                      [''if _result['' @ Itoa i @ ''] != nil {'']
                      @ asserts i returnType
                      @ [''}''])
                    (enumerate 0 (map ParamType (Out method))))
         @ [''}'',
            ''return '' @ Join (map (\<lambda>(i, returnType). ''_ret'' @ Itoa i)
                                 (enumerate 0 (map ParamType (Out method)))) '', '',
            ''}'']) g)) \<and>
   runResultUnpack zeros assertTo [] = Inr zeros"
proof -
  let ?asserts = "\<lambda>i t. (case t of
             ChanType dir elem \<Rightarrow>
               if dir \<noteq> 0 then
                 [''var ok bool'',
                  ''  _ret'' @ Itoa i @ '', ok = _result['' @ Itoa i @ ''].(''
                    @ String (ChanType 0 elem) (packageMap g) po @ '')'',
                  ''if !ok{'',
                  ''_ret'' @ Itoa i @ '' = _result['' @ Itoa i @ ''].(''
                    @ String (ChanType dir elem) (packageMap g) po @ '')'',
                  ''}'']
               else [''_ret'' @ Itoa i @ ''  = _result['' @ Itoa i @ ''].(''
                       @ String t (packageMap g) po @ '')'']
           | _ \<Rightarrow> [''_ret'' @ Itoa i @ ''  = _result['' @ Itoa i @ ''].(''
                       @ String t (packageMap g) po @ '')''])"
  let ?params = "paramsLines (fst (snd (argDataFor String method (packageMap g) po)))
                   (Variadic method \<noteq> None)"
  have al: "assertLines String (packageMap g) po
      = (\<lambda>(i, returnType). [''if _result['' @ Itoa i @ ''] != nil {'']
                      @ ?asserts i returnType @ [''}''])"
    by (rule ext) (simp add: assertLines_def split: prod.split)
  have "generateMockMethod String mockType typeParamNames method po g =
       Inr (ps (
         [''func (mock *'' @ mockType @ typeParamNames @ '') '' @ MethodName method
            @ ''('' @ join (fst (argDataFor String method (packageMap g) po)) @ '') (''
            @ join (stringSliceFrom String (map ParamType (Out method)) (packageMap g) po)
            @ '') {'',
          ''if mock == nil {'',
          tab @ ''panic('' @ dquote @ ''mock must not be nil. Use myMock := New''
            @ mockType @ ''().'' @ dquote @ '')'',
          ''}'']
         @ ?params
         @ [''_result := pegomock.GetGenericMockFrom(mock).Invoke(''
              @ dquote @ MethodName method @ dquote @ '', _params, []reflect.Type{''
              @ Join (map (\<lambda>returnType. ''reflect.TypeOf(('' @ ''*''
                        @ String returnType (packageMap g) po @ '')(nil)).Elem()'')
                       (map ParamType (Out method))) '', ''
              @ ''})'']
         @ map (\<lambda>(i, returnType). ''var _ret'' @ Itoa i @ '' ''
                  @ String returnType (packageMap g) po)
             (enumerate 0 (map ParamType (Out method)))
         @ [''if len(_result) != 0 {'']
         @ concat (map (\<lambda>(i, returnType).
                      [''if _result['' @ Itoa i @ ''] != nil {'']
                      @ ?asserts i returnType
                      @ [''}''])
                    (enumerate 0 (map ParamType (Out method))))
         @ [''}'',
            ''return '' @ Join (map (\<lambda>(i, returnType). ''_ret'' @ Itoa i)
                                 (enumerate 0 (map ParamType (Out method)))) '', '',
            ''}'']) g)"
    unfolding generateMockMethod_lines mockMethodLines_def mockMethodHead_def Let_def al
    using assms by simp
  then have "\<exists>params asserts.
     generateMockMethod String mockType typeParamNames method po g =
       Inr (ps (
         [''func (mock *'' @ mockType @ typeParamNames @ '') '' @ MethodName method
            @ ''('' @ join (fst (argDataFor String method (packageMap g) po)) @ '') (''
            @ join (stringSliceFrom String (map ParamType (Out method)) (packageMap g) po)
            @ '') {'',
          ''if mock == nil {'',
          tab @ ''panic('' @ dquote @ ''mock must not be nil. Use myMock := New''
            @ mockType @ ''().'' @ dquote @ '')'',
          ''}'']
         @ params
         @ [''_result := pegomock.GetGenericMockFrom(mock).Invoke(''
              @ dquote @ MethodName method @ dquote @ '', _params, []reflect.Type{''
              @ Join (map (\<lambda>returnType. ''reflect.TypeOf(('' @ ''*''
                        @ String returnType (packageMap g) po @ '')(nil)).Elem()'')
                       (map ParamType (Out method))) '', ''
              @ ''})'']
         @ map (\<lambda>(i, returnType). ''var _ret'' @ Itoa i @ '' ''
                  @ String returnType (packageMap g) po)
             (enumerate 0 (map ParamType (Out method)))
         @ [''if len(_result) != 0 {'']
         @ concat (map (\<lambda>(i, returnType).
                      [''if _result['' @ Itoa i @ ''] != nil {'']
                      @ asserts i returnType
                      @ [''}''])
                    (enumerate 0 (map ParamType (Out method))))
         @ [''}'',
            ''return '' @ Join (map (\<lambda>(i, returnType). ''_ret'' @ Itoa i)
                                 (enumerate 0 (map ParamType (Out method)))) '', '',
            ''}'']) g)"
    by (intro exI [of _ ?params] exI [of _ ?asserts])
  moreover have "runResultUnpack zeros assertTo [] = Inr zeros"
    by (simp add: runResultUnpack_def)
  ultimately show ?thesis by (rule conjI)
qed

text \<open>Witness for C6: the method \<open>Get\<close>, which has two outputs.\<close>

theorem result_holders_guarded_witness:
  "Out exampleGet \<noteq> [] \<and>
   ((\<exists>params asserts.
     generateMockMethod exampleString ''MockThing'' [] exampleGet [] \<lparr>buf = [], packageMap = Map.empty\<rparr> =
       Inr (ps (
         [''func (mock *'' @ ''MockThing'' @ [] @ '') '' @ MethodName exampleGet
            @ ''('' @ join (fst (argDataFor exampleString exampleGet Map.empty [])) @ '') (''
            @ join (stringSliceFrom exampleString (map ParamType (Out exampleGet)) Map.empty [])
            @ '') {'',
          ''if mock == nil {'',
          tab @ ''panic('' @ dquote @ ''mock must not be nil. Use myMock := New''
            @ ''MockThing'' @ ''().'' @ dquote @ '')'',
          ''}'']
         @ params
         @ [''_result := pegomock.GetGenericMockFrom(mock).Invoke(''
              @ dquote @ MethodName exampleGet @ dquote @ '', _params, []reflect.Type{''
              @ Join (map (\<lambda>returnType. ''reflect.TypeOf(('' @ ''*''
                        @ exampleString returnType Map.empty [] @ '')(nil)).Elem()'')
                       (map ParamType (Out exampleGet))) '', ''
              @ ''})'']
         @ map (\<lambda>(i, returnType). ''var _ret'' @ Itoa i @ '' ''
                  @ exampleString returnType Map.empty [])
             (enumerate 0 (map ParamType (Out exampleGet)))
         @ [''if len(_result) != 0 {'']
         @ concat (map (\<lambda>(i, returnType).
                      [''if _result['' @ Itoa i @ ''] != nil {'']
                      @ asserts i returnType
                      @ [''}''])
                    (enumerate 0 (map ParamType (Out exampleGet))))
         @ [''}'',
            ''return '' @ Join (map (\<lambda>(i, returnType). ''_ret'' @ Itoa i)
                                 (enumerate 0 (map ParamType (Out exampleGet)))) '', '',
            ''}'']) \<lparr>buf = [], packageMap = Map.empty\<rparr>)) \<and>
   runResultUnpack [''a'', ''b''] (\<lambda>i r. (None :: string option)) ([] :: nat option list) = Inr [''a'', ''b''])"
proof -
  have h: "Out exampleGet \<noteq> []"
    by (simp add: exampleGet_def)
  from result_holders_guarded [OF h, of exampleString "''MockThing''" "[]" "[]"
      "\<lparr>buf = [], packageMap = Map.empty\<rparr>" "[''a'', ''b'']" "\<lambda>i r. None"]
  have "(\<exists>params asserts.
     generateMockMethod exampleString ''MockThing'' [] exampleGet [] \<lparr>buf = [], packageMap = Map.empty\<rparr> =
       Inr (ps (
         [''func (mock *'' @ ''MockThing'' @ [] @ '') '' @ MethodName exampleGet
            @ ''('' @ join (fst (argDataFor exampleString exampleGet Map.empty [])) @ '') (''
            @ join (stringSliceFrom exampleString (map ParamType (Out exampleGet)) Map.empty [])
            @ '') {'',
          ''if mock == nil {'',
          tab @ ''panic('' @ dquote @ ''mock must not be nil. Use myMock := New''
            @ ''MockThing'' @ ''().'' @ dquote @ '')'',
          ''}'']
         @ params
         @ [''_result := pegomock.GetGenericMockFrom(mock).Invoke(''
              @ dquote @ MethodName exampleGet @ dquote @ '', _params, []reflect.Type{''
              @ Join (map (\<lambda>returnType. ''reflect.TypeOf(('' @ ''*''
                        @ exampleString returnType Map.empty [] @ '')(nil)).Elem()'')
                       (map ParamType (Out exampleGet))) '', ''
              @ ''})'']
         @ map (\<lambda>(i, returnType). ''var _ret'' @ Itoa i @ '' ''
                  @ exampleString returnType Map.empty [])
             (enumerate 0 (map ParamType (Out exampleGet)))
         @ [''if len(_result) != 0 {'']
         @ concat (map (\<lambda>(i, returnType).
                      [''if _result['' @ Itoa i @ ''] != nil {'']
                      @ asserts i returnType
                      @ [''}''])
                    (enumerate 0 (map ParamType (Out exampleGet))))
         @ [''}'',
            ''return '' @ Join (map (\<lambda>(i, returnType). ''_ret'' @ Itoa i)
                                 (enumerate 0 (map ParamType (Out exampleGet)))) '', '',
            ''}'']) \<lparr>buf = [], packageMap = Map.empty\<rparr>)) \<and>
   runResultUnpack [''a'', ''b''] (\<lambda>i r. (None :: string option)) ([] :: nat option list) = Inr [''a'', ''b'']"
    by simp
  with h show ?thesis by (rule conjI)
qed

text \<open>
  Claim C8. \<open>GetCapturedArguments\<close> of a method with at least one parameter calls
  \<open>GetAllCapturedArguments\<close>, binds one sequence per parameter position, and returns the
  last element \<open>a[len(a)-1]\<close> of each; for a method without parameters its body is empty
  and it returns nothing.
\<close>

theorem captured_arguments_last:
  "generateOngoingVerificationGetCapturedArguments ongoingVerificationStructName
       (fst (snd (argDataFor String method pm po)))
       (fst (snd (snd (argDataFor String method pm po)))) typeParamNames g =
     ps (if In method = [] \<and> Variadic method = None then
           [''func (c *'' @ ongoingVerificationStructName @ typeParamNames
              @ '') GetCapturedArguments() () {'',
            ''}'',
            []]
         else
           [''func (c *'' @ ongoingVerificationStructName @ typeParamNames
              @ '') GetCapturedArguments() (''
              @ join (fst (snd (snd (argDataFor String method pm po)))) @ '') {'',
            join (fst (snd (argDataFor String method pm po))) @ '' := c.GetAllCapturedArguments()'',
            ''return '' @ Join (map (\<lambda>argName. argName @ ''[len('' @ argName @ '')-1]'')
                                 (fst (snd (argDataFor String method pm po)))) '', '',
            ''}'',
            []]) g \<and>
   length (fst (snd (argDataFor String method pm po)))
     = length (In method) + (case Variadic method of None \<Rightarrow> 0 | Some v \<Rightarrow> 1)"
proof -
  have len: "length (fst (snd (argDataFor String method pm po)))
     = length (In method) + (case Variadic method of None \<Rightarrow> 0 | Some v \<Rightarrow> 1)"
    by (simp add: argNames_argDataFor split: option.split)
  have "length (fst (snd (argDataFor String method pm po))) = 0
      \<longleftrightarrow> In method = [] \<and> Variadic method = None"
    unfolding len by (cases "Variadic method") simp_all
  then have empty: "fst (snd (argDataFor String method pm po)) = []
      \<longleftrightarrow> In method = [] \<and> Variadic method = None"
    by simp
  have types: "In method = [] \<and> Variadic method = None \<Longrightarrow>
      fst (snd (snd (argDataFor String method pm po))) = []"
    by (simp add: argTypes_argDataFor)
  have "generateOngoingVerificationGetCapturedArguments ongoingVerificationStructName
       (fst (snd (argDataFor String method pm po)))
       (fst (snd (snd (argDataFor String method pm po)))) typeParamNames g =
     ps (if In method = [] \<and> Variadic method = None then
           [''func (c *'' @ ongoingVerificationStructName @ typeParamNames
              @ '') GetCapturedArguments() () {'',
            ''}'',
            []]
         else
           [''func (c *'' @ ongoingVerificationStructName @ typeParamNames
              @ '') GetCapturedArguments() (''
              @ join (fst (snd (snd (argDataFor String method pm po)))) @ '') {'',
            join (fst (snd (argDataFor String method pm po))) @ '' := c.GetAllCapturedArguments()'',
            ''return '' @ Join (map (\<lambda>argName. argName @ ''[len('' @ argName @ '')-1]'')
                                 (fst (snd (argDataFor String method pm po)))) '', '',
            ''}'',
            []]) g"
  proof (cases "In method = [] \<and> Variadic method = None")
    case True
    with empty types show ?thesis
      by (simp add: generateOngoingVerificationGetCapturedArguments_def Let_def emptyLine_def
            join_def)
  next
    case False
    with empty have ne: "fst (snd (argDataFor String method pm po)) \<noteq> []" by simp
    have sel:
      "(if In method = [] \<and> Variadic method = None then A else B) = B" for A B :: "string list"
      using False by (simp only: if_False)
    from ne show ?thesis
      by (simp only: sel generateOngoingVerificationGetCapturedArguments_def Let_def
            emptyLine_def)
         simp
  qed
  then show ?thesis using len by (rule conjI)
qed

section \<open>The capture of variadic arguments\<close>

lemma capturedLoop_variadic:
  "numArgs = i + length fixed + 1 \<Longrightarrow>
   capturedLoop numArgs True i (fixed @ [argType]) g
     = ps (concat (map fixedCaptureLines (enumerate i fixed))
           @ variadicCaptureLines (i + length fixed) argType) g"
proof (induction fixed arbitrary: i g)
  case Nil
  then show ?case by (simp add: variadicCaptureLines_def Let_def)
next
  case (Cons a fixed)
  from Cons.prems have ne: "int i \<noteq> int numArgs - 1" by simp
  from Cons.prems have n: "numArgs = Suc i + length fixed + 1" by simp
  show ?case
    using ne Cons.IH [OF n]
    by (simp add: fixedCaptureLines_def ps_append)
qed

lemma Index_prefix: "Index (sep @ t) sep = Some 0"
  by (subst Index.simps) simp

lemma Replace1_slice: "Replace1 (''[]'' @ t) ''[]'' [] = t"
  unfolding Replace1_def Index_prefix by simp

lemma foldl_update_cells:
  "m \<le> n \<Longrightarrow> i \<le> m \<Longrightarrow> length init = n - i \<Longrightarrow>
   foldl (\<lambda>inner x. case cell x of None \<Rightarrow> inner | Some v \<Rightarrow> inner[x - i := v]) init [i..<m]
     = map (\<lambda>j. if j < m - i then (case cell (i + j) of None \<Rightarrow> init ! j | Some v \<Rightarrow> v)
                  else init ! j) [0..<n - i]"
proof (induction m)
  case 0
  then show ?case by (simp add: map_nth [symmetric] del: map_nth) (metis map_nth)
next
  case (Suc m)
  show ?case
  proof (cases "i = Suc m")
    case True
    then show ?thesis using Suc.prems by (simp) (metis map_nth)
  next
    case False
    with Suc.prems have im: "i \<le> m" and mn: "m \<le> n" by simp_all
    have up: "[i..<Suc m] = [i..<m] @ [m]" using im by simp
    have mi: "m - i < n - i" using Suc.prems im by arith
    show ?thesis
      unfolding up foldl_append Suc.IH [OF mn im Suc.prems(3)]
      using im mi Suc.prems(3)
      by (auto simp: list_eq_iff_nth_eq nth_list_update less_Suc_eq Suc_diff_le
               split: option.splits)
  qed
qed

lemma captureInner_cells:
  assumes "i \<le> length params"
  shows "captureInner zero i params u
     = map (\<lambda>x. case params ! x ! u of None \<Rightarrow> zero | Some v \<Rightarrow> v) [i..<length params]"
proof -
  let ?W = "length params"
  have "captureInner zero i params u
     = map (\<lambda>j. if j < ?W - i then (case params ! (i + j) ! u of
                                       None \<Rightarrow> replicate (?W - i) zero ! j | Some v \<Rightarrow> v)
                  else replicate (?W - i) zero ! j) [0..<?W - i]"
    unfolding captureInner_def
    by (rule foldl_update_cells [OF order_refl assms]) simp
  also have "\<dots> = map (\<lambda>x. case params ! x ! u of None \<Rightarrow> zero | Some v \<Rightarrow> v) [i..<?W]"
    using assms by (auto simp: list_eq_iff_nth_eq split: option.splits)
  finally show ?thesis .
qed

lemma variadic_capture_matrix:
  assumes "0 < length params" and "i \<le> length params"
    and "list_all (\<lambda>column. length column = numInvocations) params"
  shows "runVariadicCapture zero i numInvocations params
     = Inr (map (\<lambda>u. map (\<lambda>x. case params ! x ! u of None \<Rightarrow> zero | Some v \<Rightarrow> v)
                       [i..<length params])
              [0..<numInvocations])"
proof -
  have cols: "\<not> list_ex (\<lambda>x. length (params ! x) < numInvocations) [i..<length params]"
    using assms(3) by (auto simp: list_ex_iff list_all_iff)
  have inner: "captureInner zero i params
      = (\<lambda>u. map (\<lambda>x. case params ! x ! u of None \<Rightarrow> zero | Some v \<Rightarrow> v) [i..<length params])"
    using captureInner_cells [OF assms(2)] by (rule ext)
  show ?thesis
    using assms(1,2) cols by (simp add: runVariadicCapture_def inner)
qed

lemma variadic_capture_calls:
  assumes "0 < length params" and "i \<le> length params"
    and "list_all (\<lambda>column. length column = length calls) params"
    and "\<forall>u<length calls. length (calls ! u) = length params \<and>
           (\<forall>x. i \<le> x \<and> x < length params \<longrightarrow> params ! x ! u = Some (calls ! u ! x))"
  shows "runVariadicCapture zero i (length calls) params = Inr (map (drop i) calls)"
proof -
  have "map (\<lambda>u. map (\<lambda>x. case params ! x ! u of None \<Rightarrow> zero | Some v \<Rightarrow> v)
                    [i..<length params]) [0..<length calls]
      = map (drop i) calls"
  proof (rule nth_equalityI)
    show "length (map (\<lambda>u. map (\<lambda>x. case params ! x ! u of None \<Rightarrow> zero | Some v \<Rightarrow> v)
                    [i..<length params]) [0..<length calls]) = length (map (drop i) calls)"
      by simp
  next
    fix u
    assume "u < length (map (\<lambda>u. map (\<lambda>x. case params ! x ! u of None \<Rightarrow> zero | Some v \<Rightarrow> v)
                    [i..<length params]) [0..<length calls])"
    then have u: "u < length calls" by simp
    with assms(4) have len: "length (calls ! u) = length params"
      and cell: "\<And>x. i \<le> x \<Longrightarrow> x < length params \<Longrightarrow> params ! x ! u = Some (calls ! u ! x)"
      by auto
    have "map (\<lambda>x. case params ! x ! u of None \<Rightarrow> zero | Some v \<Rightarrow> v) [i..<length params]
        = drop i (calls ! u)"
      using len assms(2) by (auto simp: list_eq_iff_nth_eq cell)
    with u show "map (\<lambda>u. map (\<lambda>x. case params ! x ! u of None \<Rightarrow> zero | Some v \<Rightarrow> v)
                    [i..<length params]) [0..<length calls] ! u = map (drop i) calls ! u"
      by simp
  qed
  with variadic_capture_matrix [OF assms(1,2,3), of zero] show ?thesis by simp
qed

lemma allCaptured_variadic_lines:
  assumes "Variadic method = Some v"
  shows "generateOngoingVerificationGetAllCapturedArguments ongoingVerificationStructName
       typeParamNames (fst (snd (snd (argDataFor String method pm po))))
       (Variadic method \<noteq> None) g =
     ps ([''func (c *'' @ ongoingVerificationStructName @ typeParamNames
            @ '') GetAllCapturedArguments() (''
            @ Join (map (\<lambda>(i, argType). ''_param'' @ Itoa i @ '' []'' @ argType)
                      (enumerate 0 (fst (snd (snd (argDataFor String method pm po)))))) '', ''
            @ '') {'',
          ''_params := pegomock.GetGenericMockFrom(c.mock)''
            @ ''.GetInvocationParams(c.methodInvocations)'',
          ''if len(_params) > 0 {'']
         @ concat (map fixedCaptureLines
                    (enumerate 0 (map (\<lambda>arg. String (ParamType arg) pm po) (In method))))
         @ variadicCaptureLines (length (In method)) (''[]'' @ String (ParamType v) pm po)
         @ [''}'', ''return'', ''}'', []]) g"
proof -
  let ?fixed = "map (\<lambda>arg. String (ParamType arg) pm po) (In method)"
  let ?vt = "''[]'' @ String (ParamType v) pm po"
  have ts: "fst (snd (snd (argDataFor String method pm po))) = ?fixed @ [?vt]"
    using assms by (simp add: argTypes_argDataFor)
  have loop: "capturedLoop (length (?fixed @ [?vt])) True 0 (?fixed @ [?vt]) g'
      = ps (concat (map fixedCaptureLines (enumerate 0 ?fixed))
            @ variadicCaptureLines (length (In method)) ?vt) g'" for g'
    using capturedLoop_variadic [of "length (?fixed @ [?vt])" 0 ?fixed ?vt g'] by simp
  have nv: "(Variadic method \<noteq> None) = True"
    using assms by simp
  show ?thesis
    unfolding generateOngoingVerificationGetAllCapturedArguments_def Let_def ts nv
    by (simp only: loop) (simp add: ps_append emptyLine_def)
qed

text \<open>
  Claim C3, as stated, fails on its first part. The whole reconstruction is inside the
  guard \<open>if len(_params) > 0\<close>, and the matrix has one column per parameter passed; when
  the matched calls passed no parameter at all the matrix has no column, the guard fails,
  and the variadic position is returned as the nil slice. For a method
  \<open>Push(items ...int)\<close> called twice with no value, there are two matched invocations and
  no inner sequence, where the claim asks for two (empty) ones.
\<close>

theorem variadic_capture_no_columns:
  "runVariadicCapture (0 :: int) 0 2 [] = Inr [] \<and>
   length ([] :: int list list) \<noteq> 2 \<and>
   runVariadicCapture (0 :: int) 0 2 [] \<noteq> Inr (map (drop 0) [[], []])"
  by (simp add: runVariadicCapture_def)

text \<open>
  Claim C3, amended. For a method with a variadic tail at position \<open>k\<close> (the number of
  fixed inputs) and element type \<open>T\<close>, \<open>GetAllCapturedArguments\<close> emits, inside the guard
  \<open>if len(_params) > 0\<close> and after the blocks of the fixed positions, the block that
  builds \<open>_param<k>\<close> as a sequence of sequences. Read as Go on a matrix with at least one
  column, at least \<open>k\<close> columns and one cell per matched invocation in every column, the
  block gives one inner sequence per matched invocation; the inner sequence for call \<open>u\<close>
  is read only from the cells of row \<open>u\<close> in the columns \<open>x \<ge> k\<close>, a nil cell leaving the
  zero value of \<open>T\<close>; and when those cells hold the parameters of the calls from position
  \<open>k\<close> on, the inner sequence for call \<open>u\<close> is exactly the variadic values passed on call
  \<open>u\<close>. On a matrix without columns no inner sequence is built.
\<close>

theorem variadic_capture:
  assumes "Variadic method = Some v"
    and "0 < length params"
    and "length (In method) \<le> length params"
    and "list_all (\<lambda>column. length column = numInvocations) params"
  shows "generateOngoingVerificationGetAllCapturedArguments ongoingVerificationStructName
       typeParamNames (fst (snd (snd (argDataFor String method pm po))))
       (Variadic method \<noteq> None) g =
     ps ([''func (c *'' @ ongoingVerificationStructName @ typeParamNames
            @ '') GetAllCapturedArguments() (''
            @ Join (map (\<lambda>(i, argType). ''_param'' @ Itoa i @ '' []'' @ argType)
                      (enumerate 0 (fst (snd (snd (argDataFor String method pm po)))))) '', ''
            @ '') {'',
          ''_params := pegomock.GetGenericMockFrom(c.mock)''
            @ ''.GetInvocationParams(c.methodInvocations)'',
          ''if len(_params) > 0 {'']
         @ concat (map fixedCaptureLines
                    (enumerate 0 (map (\<lambda>arg. String (ParamType arg) pm po) (In method))))
         @ [''_param'' @ Itoa (length (In method)) @ '' = make([][]''
              @ String (ParamType v) pm po @ '', len(c.methodInvocations))'',
            ''for u := 0; u < len(c.methodInvocations); u++ {'',
            ''_param'' @ Itoa (length (In method)) @ ''[u] = make([]''
              @ String (ParamType v) pm po
              @ '', len(_params)-'' @ Itoa (length (In method)) @ '')'',
            ''for x := '' @ Itoa (length (In method)) @ ''; x < len(_params); x++ {'',
            ''if _params[x][u] != nil {'',
            ''_param'' @ Itoa (length (In method)) @ ''[u][x-'' @ Itoa (length (In method))
              @ ''] = _params[x][u].('' @ String (ParamType v) pm po @ '')'',
            ''}'',
            ''}'',
            ''}'']
         @ [''}'', ''return'', ''}'', []]) g \<and>
   runVariadicCapture zero (length (In method)) numInvocations params
     = Inr (map (\<lambda>u. map (\<lambda>x. case params ! x ! u of None \<Rightarrow> zero | Some value \<Rightarrow> value)
                       [length (In method)..<length params])
              [0..<numInvocations]) \<and>
   (length methodInvocations = numInvocations \<and>
    (\<forall>u<numInvocations. length (methodInvocations ! u) = length params \<and>
       (\<forall>x. length (In method) \<le> x \<and> x < length params \<longrightarrow>
            params ! x ! u = Some (methodInvocations ! u ! x))) \<longrightarrow>
    runVariadicCapture zero (length (In method)) numInvocations params
      = Inr (map (drop (length (In method))) methodInvocations)) \<and>
   runVariadicCapture zero (length (In method)) numInvocations [] = Inr []"
proof -
  have v: "variadicCaptureLines (length (In method)) (''[]'' @ String (ParamType v) pm po)
     = [''_param'' @ Itoa (length (In method)) @ '' = make([][]''
              @ String (ParamType v) pm po @ '', len(c.methodInvocations))'',
            ''for u := 0; u < len(c.methodInvocations); u++ {'',
            ''_param'' @ Itoa (length (In method)) @ ''[u] = make([]''
              @ String (ParamType v) pm po
              @ '', len(_params)-'' @ Itoa (length (In method)) @ '')'',
            ''for x := '' @ Itoa (length (In method)) @ ''; x < len(_params); x++ {'',
            ''if _params[x][u] != nil {'',
            ''_param'' @ Itoa (length (In method)) @ ''[u][x-'' @ Itoa (length (In method))
              @ ''] = _params[x][u].('' @ String (ParamType v) pm po @ '')'',
            ''}'',
            ''}'',
            ''}'']"
    by (simp only: variadicCaptureLines_def Replace1_slice) simp
  have calls: "runVariadicCapture zero (length (In method)) numInvocations params
      = Inr (map (drop (length (In method))) methodInvocations)"
    if "length methodInvocations = numInvocations"
      and "\<forall>u<numInvocations. length (methodInvocations ! u) = length params \<and>
       (\<forall>x. length (In method) \<le> x \<and> x < length params \<longrightarrow>
            params ! x ! u = Some (methodInvocations ! u ! x))"
    using variadic_capture_calls [of params "length (In method)" methodInvocations zero]
      assms(2,3,4) that by simp
  have none: "runVariadicCapture zero (length (In method)) numInvocations [] = Inr []"
    by (simp add: runVariadicCapture_def)
  show ?thesis
    using allCaptured_variadic_lines [OF assms(1), of ongoingVerificationStructName
        typeParamNames "String" pm po g]
      variadic_capture_matrix [OF assms(2,3,4), of zero] calls none
    by (simp only: v) simp
qed

text \<open>
  Witness for C3: \<open>Push(string, items ...string)\<close>, matched by the calls
  \<open>Push(a, x, y)\<close> and \<open>Push(b, z, w)\<close>.
\<close>

theorem variadic_capture_witness:
  "Variadic examplePush = Some \<lparr>ParamName = ''items'', ParamType = NamedType [] ''string''\<rparr> \<and>
   0 < length [[Some ''a'', Some ''b''], [Some ''x'', Some ''z''], [Some ''y'', Some ''w'']] \<and>
   length (In examplePush)
     \<le> length [[Some ''a'', Some ''b''], [Some ''x'', Some ''z''], [Some ''y'', Some ''w'']] \<and>
   list_all (\<lambda>column. length column = 2)
     [[Some ''a'', Some ''b''], [Some ''x'', Some ''z''], [Some ''y'', Some ''w'']] \<and>
   runVariadicCapture [] (length (In examplePush)) 2
       [[Some ''a'', Some ''b''], [Some ''x'', Some ''z''], [Some ''y'', Some ''w'']]
     = Inr [[''x'', ''y''], [''z'', ''w'']] \<and>
   Inr [[''x'', ''y''], [''z'', ''w'']]
     = (Inr (map (drop (length (In examplePush)))
              [[''a'', ''x'', ''y''], [''b'', ''z'', ''w'']]) :: runtimePanic + string list list)"
proof -
  let ?params = "[[Some ''a'', Some ''b''], [Some ''x'', Some ''z''], [Some ''y'', Some ''w'']]"
  have h1: "Variadic examplePush
      = Some \<lparr>ParamName = ''items'', ParamType = NamedType [] ''string''\<rparr>"
    by (simp add: examplePush_def)
  have h2: "0 < length ?params" by simp
  have h3: "length (In examplePush) \<le> length ?params"
    by (simp add: examplePush_def)
  have h4: "list_all (\<lambda>column. length column = 2) ?params" by simp
  have k: "length (In examplePush) = 1"
    by (simp add: examplePush_def)
  have up: "[1..<3] = [1, 2 :: nat]" "[0..<2] = [0, 1 :: nat]"
    by (simp_all add: upt_rec)
  from variadic_capture [OF h1 h2 h3 h4, of "''MockThing_Push_OngoingVerification''"
      "[]" exampleString Map.empty "[]" "\<lparr>buf = [], packageMap = Map.empty\<rparr>" "[]"]
  have "runVariadicCapture [] (length (In examplePush)) 2 ?params
     = Inr (map (\<lambda>u. map (\<lambda>x. case ?params ! x ! u of None \<Rightarrow> [] | Some value \<Rightarrow> value)
                       [length (In examplePush)..<length ?params])
              [0..<2])"
    by blast
  then show ?thesis
    using h1 h2 h3 h4 by (simp add: k up)
qed

section \<open>The buffer after the driver\<close>

lemma capturedLoop_lines:
  "capturedLoop numArgs isVariadic i argTypes g
     = ps (capturedLoopLines numArgs isVariadic i argTypes) g"
  by (induction argTypes arbitrary: i g)
     (simp_all add: fixedCaptureLines_def variadicCaptureLines_def Let_def ps_append)

lemma allCaptured_lines:
  "generateOngoingVerificationGetAllCapturedArguments name typeParamNames argTypes isVariadic g
     = ps (allCapturedLines name typeParamNames argTypes isVariadic) g"
  unfolding generateOngoingVerificationGetAllCapturedArguments_def allCapturedLines_def Let_def
    capturedLoop_lines
  by (simp add: ps_append emptyLine_def)

lemma capturedArguments_lines:
  "generateOngoingVerificationGetCapturedArguments name argNames argTypes typeParamNames g
     = ps (capturedArgumentsLines name argNames argTypes typeParamNames) g"
  by (simp add: generateOngoingVerificationGetCapturedArguments_def capturedArgumentsLines_def
        Let_def emptyLine_def)

lemma verifierMethod_lines:
  "Variadic method \<noteq> None \<longrightarrow> argNames \<noteq> [] \<Longrightarrow>
   generateVerifierMethod interfaceName typeParamNames method po returnTypeString args argNames g
     = Inr (ps (verifierMethodLines interfaceName typeParamNames method returnTypeString
                  args argNames) g)"
  unfolding generateVerifierMethod_def Let_def verifierMethodLines_def
  by (subst GenerateParamsDeclaration_ps) (simp_all add: andThen_Inr ps_append)

lemma verification_lines:
  "(case argDataFor String method (packageMap g) selfPackage of
      (args, argNames, argTypes, returnTypes) \<Rightarrow>
        andThen (generateVerifierMethod mockTypeName typeParamNames method selfPackage
                   ongoingVerificationTypeName args argNames g)
          (\<lambda>g. let g = generateOngoingVerificationType mockTypeName typeParams
                          typeParamNames ongoingVerificationTypeName g;
                    g = generateOngoingVerificationGetCapturedArguments
                          ongoingVerificationTypeName argNames argTypes typeParamNames g
                in Inr (generateOngoingVerificationGetAllCapturedArguments
                          ongoingVerificationTypeName typeParamNames argTypes
                          (Variadic method \<noteq> None) g)))
   = Inr (ps (case argDataFor String method (packageMap g) selfPackage of
               (args, argNames, argTypes, returnTypes) \<Rightarrow>
                 verifierMethodLines mockTypeName typeParamNames method
                   ongoingVerificationTypeName args argNames
                 @ ongoingVerificationTypeLines mockTypeName typeParams typeParamNames
                     ongoingVerificationTypeName
                 @ capturedArgumentsLines ongoingVerificationTypeName argNames argTypes
                     typeParamNames
                 @ allCapturedLines ongoingVerificationTypeName typeParamNames argTypes
                     (Variadic method \<noteq> None)) g)"
proof -
  obtain args argNames argTypes returnTypes where
    ad: "argDataFor String method (packageMap g) selfPackage
           = (args, argNames, argTypes, returnTypes)"
    by (cases "argDataFor String method (packageMap g) selfPackage") auto
  have names: "Variadic method \<noteq> None \<longrightarrow> argNames \<noteq> []"
    using argNames_nonempty [of "method" "String" "packageMap g" selfPackage] by (simp add: ad)
  show ?thesis
    unfolding ad prod.case Let_def
    by (simp only: verifierMethod_lines [OF names] andThen_Inr
          generateOngoingVerificationType_def capturedArguments_lines allCaptured_lines)
       (simp add: ps_append)
qed

lemma generateMockFor_lines:
  "generateMockFor String iface mockTypeName selfPackage g
     = Inr (ps (mockForLines String (packageMap g) iface mockTypeName selfPackage) g)"
proof -
  let ?pm = "packageMap g"
  let ?tpn = "typeParamsStringFrom String (TypeParams iface) ?pm selfPackage False"
  let ?tp = "typeParamsStringFrom String (TypeParams iface) ?pm selfPackage True"
  have first: "forEach (\<lambda>method g.
              andThen (generateMockMethod String mockTypeName ?tpn method selfPackage g)
                (\<lambda>g. Inr (emptyLine g))) ms g'
      = Inr (ps (concat (map (\<lambda>method.
                     mockMethodLines String (packageMap g') mockTypeName ?tpn method selfPackage
                     @ [[]]) ms)) g')" for ms g'
    by (rule forEach_ps)
       (simp add: generateMockMethod_lines andThen_Inr emptyLine_def ps_append)
  have second: "forEach (\<lambda>method g.
                   let ongoingVerificationTypeName =
                         mockTypeName @ ''_'' @ MethodName method @ ''_OngoingVerification''
                   in (case argDataFor String method (packageMap g) selfPackage of
                         (args, argNames, argTypes, returnTypes) \<Rightarrow>
                         andThen (generateVerifierMethod mockTypeName ?tpn method
                                    selfPackage ongoingVerificationTypeName args argNames g)
                           (\<lambda>g.
                              let g = generateOngoingVerificationType mockTypeName ?tp
                                        ?tpn ongoingVerificationTypeName g;
                                  g = generateOngoingVerificationGetCapturedArguments
                                        ongoingVerificationTypeName argNames argTypes
                                        ?tpn g
                              in Inr (generateOngoingVerificationGetAllCapturedArguments
                                        ongoingVerificationTypeName ?tpn argTypes
                                        (Variadic method \<noteq> None) g)))) ms g'
      = Inr (ps (concat (map (verificationLines String (packageMap g') mockTypeName ?tp ?tpn
                                selfPackage) ms)) g')" for ms g'
    by (rule forEach_ps)
       (simp only: Let_def verification_lines [unfolded Let_def] verificationLines_def)
  show ?thesis
    unfolding generateMockFor_def Let_def
    by (simp only: generateMockType_def generateMockVerifyMethods_def generateVerifierType_def
          first second [unfolded Let_def] andThen_Inr packageMap_ps mockForLines_def Let_def)
       (simp add: ps_append)
qed

lemma g_p_packageMap_update: "g_p l (g\<lparr>packageMap := pm\<rparr>) = (g_p l g)\<lparr>packageMap := pm\<rparr>"
  by (simp add: g_p_def)

lemma ps_packageMap_update: "ps ls (g\<lparr>packageMap := pm\<rparr>) = (ps ls g)\<lparr>packageMap := pm\<rparr>"
  by (induction ls arbitrary: g) (simp_all add: g_p_packageMap_update)

lemma foldl_importLine:
  "foldl (importLine nv selfPackage) g rangeOrder
     = ps (concat (map (importText nv selfPackage) rangeOrder)) g"
  by (induction rangeOrder arbitrary: g)
     (simp_all add: importLine_def importText_def ps_append split: option.split)

lemma foldl_dotImports:
  "foldl (\<lambda>g packagePath. g_p (f packagePath) g) g paths = ps (map f paths) g"
  by (induction paths arbitrary: g) simp_all

lemma generateCode_lines:
  "generateCode String Imports rangeOrder source pkg structName pkgName selfPackage g =
     Inr (ps (codeHead source pkgName
              @ concat (map (importText
                  (snd (generateUniquePackageNamesFor
                          (List.insert mockFrameworkImportPath (Imports pkg))))
                  selfPackage) rangeOrder)
              @ codeTail String
                  (fst (generateUniquePackageNamesFor
                          (List.insert mockFrameworkImportPath (Imports pkg))))
                  pkg structName selfPackage)
            (g\<lparr>packageMap := fst (generateUniquePackageNamesFor
                                    (List.insert mockFrameworkImportPath (Imports pkg)))\<rparr>))"
proof -
  obtain pm nv where
    al: "generateUniquePackageNamesFor (List.insert mockFrameworkImportPath (Imports pkg))
           = (pm, nv)"
    by (cases "generateUniquePackageNamesFor
                 (List.insert mockFrameworkImportPath (Imports pkg))") auto
  have ifaces: "forEach (\<lambda>iface g.
                 let sName = structName;
                     sName = (if sName = [] then ''Mock'' @ InterfaceName iface else sName)
                 in generateMockFor String iface sName selfPackage g) is g'
      = Inr (ps (concat (map (\<lambda>iface.
                 mockForLines String (packageMap g') iface
                   (if structName = [] then ''Mock'' @ InterfaceName iface else structName)
                   selfPackage) is)) g')" for "is" g'
    by (rule forEach_ps) (simp add: Let_def generateMockFor_lines)
  have pm: "packageMap (g'\<lparr>packageMap := pm\<rparr>) = pm" for g' :: generator
    by simp
  show ?thesis
    unfolding generateCode_def Let_def al prod.case fst_conv snd_conv
    by (simp only: foldl_importLine foldl_dotImports ifaces [unfolded Let_def])
       (simp add: ps_append ps_packageMap_update g_p_packageMap_update codeHead_def
          codeTail_def)
qed

section \<open>The formatting pass and the order of the import lines\<close>

text \<open>
  The lines of a buffer that was written line by line are those lines; a piece of text
  that was written with \<open>p\<close> and holds newlines of its own gives several.
\<close>

lemma linesFrom_line:
  "newline \<notin> set l \<Longrightarrow> linesFrom line (l @ newline # rest) = (line @ l) # linesFrom [] rest"
  by (induction l arbitrary: line) auto

lemma linesFrom_unlines:
  "\<forall>l\<in>set ls. newline \<notin> set l \<Longrightarrow> linesFrom [] (unlines ls @ rest) = ls @ linesFrom [] rest"
  by (induction ls) (simp_all add: unlines_def linesFrom_line)

lemma linesFrom_chunk:
  "\<exists>pre. \<forall>rest. linesFrom line (c @ newline # rest) = pre @ linesFrom [] rest"
proof (induction c arbitrary: line)
  case Nil
  show ?case by (rule exI [of _ "[line]"]) simp
next
  case (Cons a c)
  show ?case
  proof (cases "a = newline")
    case True
    from Cons [of "[]"] obtain pre where
      "\<forall>rest. linesFrom [] (c @ newline # rest) = pre @ linesFrom [] rest" by blast
    with True show ?thesis by (intro exI [of _ "line # pre"]) simp
  next
    case False
    from Cons [of "line @ [a]"] obtain pre where
      "\<forall>rest. linesFrom (line @ [a]) (c @ newline # rest) = pre @ linesFrom [] rest" by blast
    with False show ?thesis by (intro exI [of _ pre]) simp
  qed
qed

lemma linesFrom_chunks:
  "\<exists>pre. \<forall>rest. linesFrom [] (unlines cs @ rest) = pre @ linesFrom [] rest"
proof (induction cs)
  case Nil
  show ?case by (rule exI [of _ "[]"]) (simp add: unlines_def)
next
  case (Cons c cs)
  from Cons obtain pre where
    p: "\<forall>rest. linesFrom [] (unlines cs @ rest) = pre @ linesFrom [] rest" by blast
  from linesFrom_chunk [of "[]" c] obtain pre0 where
    p0: "\<forall>rest. linesFrom [] (c @ newline # rest) = pre0 @ linesFrom [] rest" by blast
  have "linesFrom [] (unlines (c # cs) @ rest) = (pre0 @ pre) @ linesFrom [] rest" for rest
    using p0 p by (simp add: unlines_def)
  then show ?case by blast
qed

lemma sortSpecs_mset: "mset run1 = mset run2 \<Longrightarrow> sortSpecs run1 = sortSpecs run2"
proof -
  assume "mset run1 = mset run2"
  then have "mset (map (\<lambda>spec. ((specPath spec, specName spec), spec)) run1)
      = mset (map (\<lambda>spec. ((specPath spec, specName spec), spec)) run2)"
    by simp
  then have "sort (map (\<lambda>spec. ((specPath spec, specName spec), spec)) run1)
      = sort (map (\<lambda>spec. ((specPath spec, specName spec), spec)) run2)"
    by (intro properties_for_sort) simp_all
  then show ?thesis by (simp add: sortSpecs_def)
qed

lemma sortBlocks_mset:
  "mset run1 = mset run2 \<Longrightarrow> sortBlocks inBlock run1 ls = sortBlocks inBlock run2 ls"
proof (induction ls arbitrary: run1 run2 inBlock)
  case Nil
  then show ?case unfolding sortBlocks.simps by (rule sortSpecs_mset)
next
  case (Cons l ls)
  from Cons.prems have specs: "sortSpecs run1 = sortSpecs run2" by (rule sortSpecs_mset)
  from Cons.prems have "mset (run1 @ [l]) = mset (run2 @ [l])" by simp
  then have run: "sortBlocks True (run1 @ [l]) ls = sortBlocks True (run2 @ [l]) ls"
    by (rule Cons.IH)
  show ?case
    unfolding sortBlocks.simps specs run ..
qed

lemma sortBlocks_specs:
  "\<forall>l\<in>set specs. l \<noteq> [] \<and> l \<noteq> '')'' \<Longrightarrow>
   sortBlocks True run (specs @ rest) = sortBlocks True (run @ specs) rest"
  by (induction specs arbitrary: run) simp_all

lemma sortBlocks_block:
  assumes "mset specs1 = mset specs2" and "\<forall>l\<in>set specs1. l \<noteq> [] \<and> l \<noteq> '')''"
  shows "sortBlocks inBlock run (''import ('' # specs1 @ rest)
       = sortBlocks inBlock run (''import ('' # specs2 @ rest)"
proof -
  from assms have s2: "\<forall>l\<in>set specs2. l \<noteq> [] \<and> l \<noteq> '')''"
    by (metis mset_eq_setD)
  have "sortBlocks True run' (specs1 @ rest) = sortBlocks True run' (specs2 @ rest)" for run'
    unfolding sortBlocks_specs [OF assms(2)] sortBlocks_specs [OF s2]
    using assms(1) by (intro sortBlocks_mset) simp
  then show ?thesis by simp
qed

lemma sortBlocks_prefix:
  "(\<And>inBlock run. sortBlocks inBlock run ls1 = sortBlocks inBlock run ls2) \<Longrightarrow>
   sortBlocks inBlock run (pre @ ls1) = sortBlocks inBlock run (pre @ ls2)"
  by (induction pre arbitrary: inBlock run) simp_all


lemma Itoa_no_newline: "newline \<notin> set (Itoa n)"
proof (induction n rule: Itoa.induct)
  case (1 n)
  have d: "digit d \<noteq> newline" if "d < 10" for d
  proof -
    from that have "digit d \<in> set ''0123456789''"
      unfolding digit_def by (intro nth_mem) simp
    then show ?thesis by (auto simp: newline_def)
  qed
  show ?case
  proof (cases "n < 10")
    case True
    then show ?thesis using d [of n] by (subst Itoa.simps) auto
  next
    case False
    with "1.IH" d [of "n mod 10"] show ?thesis by (subst Itoa.simps) auto
  qed
qed

lemma newline_plain: "\<not> IsLetter newline" "\<not> IsDigit newline" "newline \<noteq> CHR ''_''"
  by (simp_all add: newline_def IsLetter_def IsDigit_def less_eq_char_def)

lemma sanitize_loop_no_newline:
  "newline \<notin> set t \<Longrightarrow> newline \<notin> set (sanitize_loop t s)"
proof (induction s arbitrary: t)
  case Nil
  then show ?case by simp
next
  case (Cons r rs)
  have r: "newline \<notin> set (t @ [r])" if "IsLetter r \<or> IsDigit r \<or> r = CHR ''_''"
    using that Cons.prems newline_plain by auto
  have u: "newline \<notin> set (t @ ''_'')"
    using Cons.prems newline_plain by auto
  show ?case
    using Cons.IH [OF u] Cons.IH [of "t @ [r]"] r by auto
qed

lemma sanitize_no_newline: "newline \<notin> set (sanitize s)"
  using sanitize_loop_no_newline [of "[]" s]
  by (simp add: sanitize_def Let_def newline_def)

lemma nameLoop_no_newline:
  "newline \<notin> set base \<Longrightarrow> newline \<notin> set packageName \<Longrightarrow>
   newline \<notin> set (nameLoop used base packageName i)"
proof (induction used base packageName i rule: nameLoop.induct)
  case (1 used base packageName i)
  show ?case
  proof (cases "packageName \<in> set used \<or> IsKeyword packageName")
    case True
    with "1.IH" "1.prems"(1) show ?thesis
      by (subst nameLoop.simps) (simp add: Itoa_no_newline)
  next
    case False
    with "1.prems"(2) show ?thesis by (subst nameLoop.simps) simp
  qed
qed

lemma aliasFor_no_newline: "newline \<notin> set (aliasFor used x)"
  by (simp add: aliasFor_def nameLoop_no_newline sanitize_no_newline) (simp add: newline_def)

lemma foldl_assignAlias_no_newline:
  "\<forall>k a. fst (snd st) k = Some a \<longrightarrow> newline \<notin> set a \<Longrightarrow>
   fst (snd (foldl assignAlias st xs)) k = Some a \<Longrightarrow> newline \<notin> set a"
proof (induction xs arbitrary: k a rule: rev_induct)
  case Nil
  then show ?case by simp
next
  case (snoc x xs)
  obtain pm nv used where st: "foldl assignAlias st xs = (pm, nv, used)"
    by (cases "foldl assignAlias st xs") auto
  show ?case
  proof (cases "k = vendorCleaned x")
    case True
    with snoc.prems(2) have "a = aliasFor used x" by (simp add: st assignAlias_eq)
    then show ?thesis by (simp add: aliasFor_no_newline)
  next
    case False
    with snoc.prems(2) have "fst (snd (foldl assignAlias st xs)) k = Some a"
      by (simp add: st assignAlias_eq)
    with snoc.IH snoc.prems(1) show ?thesis by blast
  qed
qed

lemma nonVendorPackageMap_no_newline:
  "snd (generateUniquePackageNamesFor importPaths) k = Some a \<Longrightarrow> newline \<notin> set a"
  using foldl_assignAlias_no_newline [of "(Map.empty, Map.empty, [])" "sort importPaths" k a]
  by (simp add: generateUniquePackageNamesFor_def Let_def)

lemma hexDigit_no_newline: "d < 16 \<Longrightarrow> hexDigit d \<noteq> newline"
proof -
  assume "d < 16"
  then have "hexDigit d \<in> set ''0123456789abcdef''"
    unfolding hexDigit_def by (intro nth_mem) simp
  then show ?thesis by (auto simp: newline_def)
qed

lemma quoteByte_no_newline: "newline \<notin> set (quoteByte c)"
proof -
  have "(of_char c :: nat) < 256" by simp
  then have "(of_char c :: nat) div 16 < 16" by arith
  then have h1: "hexDigit (of_char c div 16) \<noteq> newline" by (rule hexDigit_no_newline)
  have h2: "hexDigit (of_char c mod 16) \<noteq> newline" by (rule hexDigit_no_newline) simp
  have "c \<noteq> newline" if "CHR 0x20 \<le> c" using that by (auto simp: newline_def)
  with h1 h2 show ?thesis
    unfolding quoteByte_def by (auto simp: newline_def)
qed

lemma Quote_no_newline: "newline \<notin> set (Quote s)"
  using quoteByte_no_newline by (auto simp: Quote_def dquote_def newline_def)

lemma importText_specs:
  assumes "l \<in> set (importText (snd (generateUniquePackageNamesFor importPaths)) selfPackage p)"
  shows "newline \<notin> set l \<and> l \<noteq> [] \<and> l \<noteq> '')''"
proof -
  obtain a where a: "snd (generateUniquePackageNamesFor importPaths) p = Some a"
    and l: "l = a @ '' '' @ Quote p"
  proof (cases "snd (generateUniquePackageNamesFor importPaths) p")
    case None
    with assms show ?thesis by (simp add: importText_def)
  next
    case (Some a)
    with assms have "l = a @ '' '' @ Quote p"
      by (simp add: importText_def split: if_splits)
    with Some that show ?thesis by blast
  qed
  from a have "newline \<notin> set a" by (rule nonVendorPackageMap_no_newline)
  with l Quote_no_newline [of p] have "newline \<notin> set l" by (auto simp: newline_def)
  moreover have "l \<noteq> []" using l by simp
  moreover have "CHR '' '' \<in> set l" using l by simp
  then have "l \<noteq> '')''" by auto
  ultimately show ?thesis by blast
qed

lemma SortImports_buffer:
  assumes "mset specs1 = mset specs2"
    and "\<forall>l\<in>set specs1. newline \<notin> set l \<and> l \<noteq> [] \<and> l \<noteq> '')''"
  shows "SortImports (unlines (codeHead source pkgName) @ unlines specs1 @ tail)
       = SortImports (unlines (codeHead source pkgName) @ unlines specs2 @ tail)"
proof -
  let ?chunks = "[''// Code generated by pegomock. DO NOT EDIT.'', ''// Source: '' @ source,
                  [], ''package '' @ pkgName, []]"
  let ?fixed = "[dquote @ ''reflect'' @ dquote, dquote @ ''time'' @ dquote]"
  have s2: "\<forall>l\<in>set specs2. newline \<notin> set l \<and> l \<noteq> [] \<and> l \<noteq> '')''"
    using assms by (metis mset_eq_setD)
  have head: "unlines (codeHead source pkgName)
      = unlines ?chunks @ unlines (''import ('' # ?fixed)"
    by (simp add: codeHead_def unlines_def)
  from linesFrom_chunks [of ?chunks] obtain pre where
    pre: "\<And>rest. linesFrom [] (unlines ?chunks @ rest) = pre @ linesFrom [] rest" by blast
  have fx: "\<forall>l\<in>set (''import ('' # ?fixed). newline \<notin> set l"
    by (simp add: dquote_def newline_def)
  have ls: "linesFrom [] (unlines (codeHead source pkgName) @ unlines specs @ tail)
      = pre @ ''import ('' # (?fixed @ specs) @ linesFrom [] tail"
    if "\<forall>l\<in>set specs. newline \<notin> set l \<and> l \<noteq> [] \<and> l \<noteq> '')''" for specs
  proof -
    have "linesFrom [] (unlines (codeHead source pkgName) @ unlines specs @ tail)
        = pre @ linesFrom [] (unlines (''import ('' # ?fixed) @ unlines specs @ tail)"
      unfolding head using pre [of "unlines (''import ('' # ?fixed) @ unlines specs @ tail"]
      by simp
    also have "linesFrom [] (unlines (''import ('' # ?fixed) @ unlines specs @ tail)
        = (''import ('' # ?fixed) @ linesFrom [] (unlines specs @ tail)"
      by (rule linesFrom_unlines [OF fx])
    also have "linesFrom [] (unlines specs @ tail) = specs @ linesFrom [] tail"
      using that by (intro linesFrom_unlines) blast
    finally show ?thesis by simp
  qed
  have m: "mset (?fixed @ specs1) = mset (?fixed @ specs2)"
    using assms(1) by simp
  have p1: "\<forall>l\<in>set (?fixed @ specs1). l \<noteq> [] \<and> l \<noteq> '')''"
    using assms(2) by (auto simp: dquote_def)
  have "sortBlocks False [] (pre @ ''import ('' # (?fixed @ specs1) @ linesFrom [] tail)
      = sortBlocks False [] (pre @ ''import ('' # (?fixed @ specs2) @ linesFrom [] tail)"
    by (rule sortBlocks_prefix) (rule sortBlocks_block [OF m p1])
  then show ?thesis
    unfolding SortImports_def ls [OF assms(2)] ls [OF s2] by simp
qed

section \<open>The generated file\<close>

lemma dom_foldl_assignAlias:
  "dom (fst (snd (foldl assignAlias st xs))) = dom (fst (snd st)) \<union> vendorCleaned ` set xs"
proof (induction xs rule: rev_induct)
  case Nil
  then show ?case by simp
next
  case (snoc x xs)
  obtain pm nv used where st: "foldl assignAlias st xs = (pm, nv, used)"
    by (cases "foldl assignAlias st xs") auto
  from snoc have "dom nv = dom (fst (snd st)) \<union> vendorCleaned ` set xs"
    by (simp add: st)
  moreover have "fst (snd (foldl assignAlias st (xs @ [x])))
      = nv(vendorCleaned x \<mapsto> aliasFor used x)"
    by (simp add: st assignAlias_eq)
  ultimately show ?case by (simp only: dom_fun_upd) auto
qed

lemma dom_nonVendorPackageMap:
  "dom (snd (generateUniquePackageNamesFor importPaths)) = vendorCleaned ` set importPaths"
  using dom_foldl_assignAlias [of "(Map.empty, Map.empty, [])" "sort importPaths"]
  by (simp add: generateUniquePackageNamesFor_def Let_def)

lemma unlines_append: "unlines (as @ bs) = unlines as @ unlines bs"
  by (simp add: unlines_def)

lemma mset_concat_map:
  "mset xs = mset ys \<Longrightarrow> mset (concat (map f xs)) = mset (concat (map f ys))"
proof -
  assume e: "mset xs = mset ys"
  have "mset (concat (map f zs)) = (\<Sum>z\<in>#mset zs. mset (f z))" for zs
    by (induction zs) simp_all
  with e show ?thesis by simp
qed

lemma count_list_concat_ge:
  "\<forall>x\<in>set xs. l \<in> set (f x) \<Longrightarrow> length xs \<le> count_list (concat (map f xs)) l"
proof (induction xs)
  case Nil
  then show ?case by simp
next
  case (Cons x xs)
  then have "count_list (f x) l \<noteq> 0" by (simp add: count_list_0_iff)
  moreover from Cons have "length xs \<le> count_list (concat (map f xs)) l" by simp
  ultimately show ?case by simp
qed

lemma typeLine_in_mockForLines:
  "''type '' @ name @ typeParamsStringFrom String (TypeParams iface) pm sp True @ '' struct {''
     \<in> set (mockForLines String pm iface name sp)"
  by (simp add: mockForLines_def Let_def mockTypeLines_def)

lemma verifierLine_in_mockForLines:
  "''type Verifier'' @ name @ typeParamsStringFrom String (TypeParams iface) pm sp True
       @ '' struct {''
     \<in> set (mockForLines String pm iface name sp)"
  by (simp add: mockForLines_def Let_def verifierTypeLines_def)

lemma ongoingLine_in_mockForLines:
  "method \<in> set (Methods iface) \<Longrightarrow>
   ''type '' @ name @ ''_'' @ MethodName method @ ''_OngoingVerification''
       @ typeParamsStringFrom String (TypeParams iface) pm sp True @ '' struct {''
     \<in> set (mockForLines String pm iface name sp)"
proof -
  assume m: "method \<in> set (Methods iface)"
  have "''type '' @ name @ ''_'' @ MethodName method @ ''_OngoingVerification''
       @ typeParamsStringFrom String (TypeParams iface) pm sp True @ '' struct {''
     \<in> set (verificationLines String pm name
              (typeParamsStringFrom String (TypeParams iface) pm sp True)
              (typeParamsStringFrom String (TypeParams iface) pm sp False) sp method)"
    by (cases "argDataFor String method pm sp")
       (simp add: verificationLines_def Let_def ongoingVerificationTypeLines_def)
  with m show ?thesis
    by (auto simp add: mockForLines_def Let_def)
qed


lemma typeParams_empty: "typeParamsStringFrom String [] pm sp withTypes = []"
  by (simp add: typeParamsStringFrom_def)

lemma rangeOrder_mset:
  "rangeOrderOf m order1 \<Longrightarrow> rangeOrderOf m order2 \<Longrightarrow> mset order1 = mset order2"
  by (metis rangeOrderOf_def set_eq_iff_mset_eq_distinct)

lemma insert_keys:
  "distinct ks1 \<Longrightarrow> distinct ks2 \<Longrightarrow> set ks1 = set ks2 \<Longrightarrow>
   generateUniquePackageNamesFor (List.insert p ks1)
     = generateUniquePackageNamesFor (List.insert p ks2)"
  by (rule aliases_of_key_set) simp_all

lemma bufOf_generateCode:
  "bufOf (generateCode String Imports rangeOrder source pkg structName pkgName selfPackage g) =
     Some (buf g @ unlines (codeHead source pkgName)
           @ unlines (concat (map (importText
                  (snd (generateUniquePackageNamesFor
                          (List.insert mockFrameworkImportPath (Imports pkg))))
                  selfPackage) rangeOrder))
           @ unlines (codeTail String
                  (fst (generateUniquePackageNamesFor
                          (List.insert mockFrameworkImportPath (Imports pkg))))
                  pkg structName selfPackage))"
  by (simp add: generateCode_lines bufOf_def ps_packageMap_update buf_ps unlines_append)

text \<open>
  Claim C9. \<open>GenerateOutput\<close> always reaches the formatting pass: \<open>generateCode\<close> returns
  a buffer on every input, and the result of \<open>GenerateOutput\<close> is the formatted bytes when
  \<open>format.Source\<close> succeeds on that buffer, and otherwise the panic whose message is
  \<open>Failed to format generated source code: \<close>, the error, a newline and the buffer.
\<close>

theorem output_formatted_or_fatal:
  "\<exists>g. generateCode String Imports rangeOrder source ast nameOut packageOut selfPackage
          \<lparr>buf = [], packageMap = Map.empty\<rparr> = Inr g \<and>
       GenerateOutput String Imports Source rangeOrder ast source nameOut packageOut selfPackage
         = (case Source (buf g) of
              Inl err \<Rightarrow> Inl (FormatFailure (''Failed to format generated source code: '' @ err
                                              @ [newline] @ buf g))
            | Inr src \<Rightarrow> Inr src)"
proof -
  have "\<exists>g. generateCode String Imports rangeOrder source ast nameOut packageOut selfPackage
          \<lparr>buf = [], packageMap = Map.empty\<rparr> = Inr g"
    by (simp add: generateCode_lines)
  then obtain g where g: "generateCode String Imports rangeOrder source ast nameOut packageOut
      selfPackage \<lparr>buf = [], packageMap = Map.empty\<rparr> = Inr g"
    by blast
  then have "GenerateOutput String Imports Source rangeOrder ast source nameOut packageOut
      selfPackage = formattedOutput Source g"
    by (simp add: GenerateOutput_def andThen_Inr)
  with g show ?thesis
    unfolding formattedOutput_def by blast
qed

text \<open>
  Claim C10. Every interface of the package is generated under the name
  \<open>structName\<close> when the override is not empty, and under \<open>Mock\<close> followed by the
  interface name only when it is empty: the buffer holds, for every interface, the
  declaration of the stand-in type, of the verifier type and of the ongoing-verification
  type of each method under that name. With a non-empty override and interfaces without
  type parameters, the line \<open>type <structName> struct {\<close> is written once per interface,
  so two or more interfaces give duplicate declarations.
\<close>

theorem override_name_shared:
  "\<exists>lines.
     generateCode String Imports rangeOrder source pkg structName pkgName selfPackage g =
       Inr (ps lines (g\<lparr>packageMap := fst (generateUniquePackageNamesFor
                          (List.insert mockFrameworkImportPath (Imports pkg)))\<rparr>)) \<and>
     (\<forall>iface\<in>set (Interfaces pkg).
        ''type '' @ (if structName = [] then ''Mock'' @ InterfaceName iface else structName)
          @ typeParamsStringFrom String (TypeParams iface)
              (fst (generateUniquePackageNamesFor
                      (List.insert mockFrameworkImportPath (Imports pkg)))) selfPackage True
          @ '' struct {'' \<in> set lines \<and>
        ''type Verifier''
          @ (if structName = [] then ''Mock'' @ InterfaceName iface else structName)
          @ typeParamsStringFrom String (TypeParams iface)
              (fst (generateUniquePackageNamesFor
                      (List.insert mockFrameworkImportPath (Imports pkg)))) selfPackage True
          @ '' struct {'' \<in> set lines \<and>
        (\<forall>method\<in>set (Methods iface).
           ''type '' @ (if structName = [] then ''Mock'' @ InterfaceName iface else structName)
             @ ''_'' @ MethodName method @ ''_OngoingVerification''
             @ typeParamsStringFrom String (TypeParams iface)
                 (fst (generateUniquePackageNamesFor
                         (List.insert mockFrameworkImportPath (Imports pkg)))) selfPackage True
             @ '' struct {'' \<in> set lines)) \<and>
     (structName \<noteq> [] \<longrightarrow> (\<forall>iface\<in>set (Interfaces pkg). TypeParams iface = []) \<longrightarrow>
        length (Interfaces pkg) \<le> count_list lines (''type '' @ structName @ '' struct {''))"
proof -
  let ?pm = "fst (generateUniquePackageNamesFor
                    (List.insert mockFrameworkImportPath (Imports pkg)))"
  let ?nv = "snd (generateUniquePackageNamesFor
                    (List.insert mockFrameworkImportPath (Imports pkg)))"
  let ?name = "\<lambda>iface. if structName = [] then ''Mock'' @ InterfaceName iface else structName"
  let ?blocks = "concat (map (\<lambda>iface. mockForLines String ?pm iface (?name iface) selfPackage)
                   (Interfaces pkg))"
  let ?lines = "codeHead source pkgName @ concat (map (importText ?nv selfPackage) rangeOrder)
                  @ codeTail String ?pm pkg structName selfPackage"
  have tail: "codeTail String ?pm pkg structName selfPackage
      = map (\<lambda>packagePath. ''. '' @ Quote packagePath) (DotImports pkg) @ ['')''] @ ?blocks"
    by (simp add: codeTail_def)
  have sub: "set (mockForLines String ?pm iface (?name iface) selfPackage) \<subseteq> set ?lines"
    if "iface \<in> set (Interfaces pkg)" for iface
    using that unfolding tail by auto
  have members: "\<forall>iface\<in>set (Interfaces pkg).
        ''type '' @ ?name iface
          @ typeParamsStringFrom String (TypeParams iface) ?pm selfPackage True
          @ '' struct {'' \<in> set ?lines \<and>
        ''type Verifier'' @ ?name iface
          @ typeParamsStringFrom String (TypeParams iface) ?pm selfPackage True
          @ '' struct {'' \<in> set ?lines \<and>
        (\<forall>method\<in>set (Methods iface).
           ''type '' @ ?name iface @ ''_'' @ MethodName method @ ''_OngoingVerification''
             @ typeParamsStringFrom String (TypeParams iface) ?pm selfPackage True
             @ '' struct {'' \<in> set ?lines)"
    using sub typeLine_in_mockForLines verifierLine_in_mockForLines ongoingLine_in_mockForLines
    by (meson subsetD)
  have count: "length (Interfaces pkg) \<le> count_list ?lines (''type '' @ structName @ '' struct {'')"
    if s: "structName \<noteq> []" and t: "\<forall>iface\<in>set (Interfaces pkg). TypeParams iface = []"
  proof -
    have "\<forall>iface\<in>set (Interfaces pkg). ''type '' @ structName @ '' struct {''
        \<in> set (mockForLines String ?pm iface (?name iface) selfPackage)"
    proof
      fix iface
      assume i: "iface \<in> set (Interfaces pkg)"
      from typeLine_in_mockForLines [of "?name iface" "String" iface ?pm selfPackage]
      show "''type '' @ structName @ '' struct {''
          \<in> set (mockForLines String ?pm iface (?name iface) selfPackage)"
        using s t i by (simp add: typeParams_empty)
    qed
    then have "length (Interfaces pkg) \<le> count_list ?blocks (''type '' @ structName @ '' struct {'')"
      by (rule count_list_concat_ge)
    then show ?thesis
      unfolding tail by simp
  qed
  have "generateCode String Imports rangeOrder source pkg structName pkgName selfPackage g =
       Inr (ps ?lines (g\<lparr>packageMap := ?pm\<rparr>))"
    by (rule generateCode_lines)
  with members count show ?thesis
    by (intro exI [of _ ?lines]) blast
qed

text \<open>
  Witness for C10: two interfaces and the override \<open>Shared\<close>; the declaration of
  \<open>Shared\<close> is written twice.
\<close>

theorem override_name_shared_witness:
  "''Shared'' \<noteq> [] \<and>
   list_all (\<lambda>iface. TypeParams iface = []) (Interfaces exampleTwoInterfaces) \<and>
   (\<exists>lines.
      generateCode exampleString exampleImports [] ''src.go'' exampleTwoInterfaces ''Shared''
          ''p'' [] \<lparr>buf = [], packageMap = Map.empty\<rparr> =
        Inr (ps lines (\<lparr>buf = [], packageMap = Map.empty\<rparr>
               \<lparr>packageMap := fst (generateUniquePackageNamesFor
                   (List.insert mockFrameworkImportPath
                      (exampleImports exampleTwoInterfaces)))\<rparr>)) \<and>
      2 \<le> count_list lines ''type Shared struct {'')"
proof -
  have h1: "''Shared'' \<noteq> []" by simp
  have h2: "\<forall>iface\<in>set (Interfaces exampleTwoInterfaces). TypeParams iface = []"
    by (simp add: exampleTwoInterfaces_def)
  have n: "length (Interfaces exampleTwoInterfaces) = 2"
    by (simp add: exampleTwoInterfaces_def)
  from override_name_shared [of exampleString exampleImports "[]" "''src.go''"
      exampleTwoInterfaces "''Shared''" "''p''" "[]" "\<lparr>buf = [], packageMap = Map.empty\<rparr>"]
  obtain lines where
    l: "generateCode exampleString exampleImports [] ''src.go'' exampleTwoInterfaces ''Shared''
          ''p'' [] \<lparr>buf = [], packageMap = Map.empty\<rparr> =
        Inr (ps lines (\<lparr>buf = [], packageMap = Map.empty\<rparr>
               \<lparr>packageMap := fst (generateUniquePackageNamesFor
                   (List.insert mockFrameworkImportPath
                      (exampleImports exampleTwoInterfaces)))\<rparr>))"
    and c: "''Shared'' \<noteq> [] \<longrightarrow>
        (\<forall>iface\<in>set (Interfaces exampleTwoInterfaces). TypeParams iface = []) \<longrightarrow>
        length (Interfaces exampleTwoInterfaces)
          \<le> count_list lines (''type '' @ ''Shared'' @ '' struct {'')"
    by blast
  from c h1 h2 n have "2 \<le> count_list lines ''type Shared struct {''"
    by simp
  with l h1 h2 show ?thesis
    unfolding list_all_iff by blast
qed

text \<open>
  \<open>generateCode\<close> writes the aliased import lines in the order in which \<open>range\<close> visits
  \<open>nonVendorPackageMap\<close>, which Go leaves unspecified: the buffer itself follows that
  order. For the package that refers to \<open>io\<close> and \<open>net/http\<close>, two orders of the same
  map give two different buffers; it is the formatting pass that makes the output of the
  two runs the same.
\<close>

lemma raw_buffer_follows_range_order:
  "rangeOrderOf (snd (generateUniquePackageNamesFor
      (List.insert mockFrameworkImportPath (exampleImports examplePackage))))
     [''io'', ''net/http'', ''github.com/petergtz/pegomock/v4''] \<and>
   rangeOrderOf (snd (generateUniquePackageNamesFor
      (List.insert mockFrameworkImportPath (exampleImports examplePackage))))
     [''net/http'', ''io'', ''github.com/petergtz/pegomock/v4''] \<and>
   bufOf (generateCode exampleQualified exampleImports
            [''io'', ''net/http'', ''github.com/petergtz/pegomock/v4'']
            ''fetcher.go'' examplePackage [] ''fetcher_test'' [] \<lparr>buf = [], packageMap = Map.empty\<rparr>)
     \<noteq> bufOf (generateCode exampleQualified exampleImports
            [''net/http'', ''io'', ''github.com/petergtz/pegomock/v4'']
            ''fetcher.go'' examplePackage [] ''fetcher_test'' [] \<lparr>buf = [], packageMap = Map.empty\<rparr>)"
proof -
  let ?nv = "snd (generateUniquePackageNamesFor
      (List.insert mockFrameworkImportPath (exampleImports examplePackage)))"
  have vc: "vendorCleaned ''io'' = ''io''" "vendorCleaned ''net/http'' = ''net/http''"
    "vendorCleaned ''github.com/petergtz/pegomock/v4'' = ''github.com/petergtz/pegomock/v4''"
    by code_simp+
  have d: "dom ?nv = {''io'', ''net/http'', ''github.com/petergtz/pegomock/v4''}"
    unfolding dom_nonVendorPackageMap
    by (auto simp add: exampleImports_def mockFrameworkImportPath_def vc)
  have r1: "rangeOrderOf ?nv [''io'', ''net/http'', ''github.com/petergtz/pegomock/v4'']"
    unfolding rangeOrderOf_def d by auto
  have r2: "rangeOrderOf ?nv [''net/http'', ''io'', ''github.com/petergtz/pegomock/v4'']"
    unfolding rangeOrderOf_def d by auto
  have io: "?nv ''io'' = Some ''io''"
    by code_simp
  have http: "?nv ''net/http'' = Some ''http''"
    by code_simp
  have t1: "importText ?nv [] ''io'' = [''io '' @ Quote ''io'']"
    by (simp add: importText_def io)
  have t2: "importText ?nv [] ''net/http'' = [''http '' @ Quote ''net/http'']"
    by (simp add: importText_def http)
  have "unlines ((''io '' @ Quote ''io'') # ls1) \<noteq> unlines ((''http '' @ Quote ''net/http'') # ls2)"
    for ls1 ls2
    by (simp add: unlines_def)
  then have "bufOf (generateCode exampleQualified exampleImports
            [''io'', ''net/http'', ''github.com/petergtz/pegomock/v4'']
            ''fetcher.go'' examplePackage [] ''fetcher_test'' [] \<lparr>buf = [], packageMap = Map.empty\<rparr>)
     \<noteq> bufOf (generateCode exampleQualified exampleImports
            [''net/http'', ''io'', ''github.com/petergtz/pegomock/v4'']
            ''fetcher.go'' examplePackage [] ''fetcher_test'' [] \<lparr>buf = [], packageMap = Map.empty\<rparr>)"
    unfolding bufOf_generateCode by (simp add: t1 t2)
  with r1 r2 show ?thesis by blast
qed

text \<open>
  Claim C1. For a fixed structural input, two runs of \<open>GenerateOutput\<close> return the same
  bytes, or both panic, whatever the order in which the referenced module paths are
  discovered (\<open>Imports1\<close>, \<open>Imports2\<close>: the same keys, in any order) and whatever the
  order in which \<open>range\<close> visits \<open>nonVendorPackageMap\<close> (\<open>order1\<close>, \<open>order2\<close>). The
  alias assignment, both maps, is the same in the two runs, and so are the two buffers
  once their import specs are sorted. The formatting pass is \<open>SortImports\<close> followed by
  any parser and printer \<open>Printer\<close>.
\<close>

theorem generate_output_deterministic:
  assumes "distinct (Imports1 pkg)" and "distinct (Imports2 pkg)"
    and "set (Imports1 pkg) = set (Imports2 pkg)"
    and "rangeOrderOf (snd (generateUniquePackageNamesFor
            (List.insert mockFrameworkImportPath (Imports1 pkg)))) order1"
    and "rangeOrderOf (snd (generateUniquePackageNamesFor
            (List.insert mockFrameworkImportPath (Imports2 pkg)))) order2"
  shows "outputOf (GenerateOutput String Imports1 (\<lambda>src. Printer (SortImports src)) order1
                     pkg source nameOut packageOut selfPackage)
       = outputOf (GenerateOutput String Imports2 (\<lambda>src. Printer (SortImports src)) order2
                     pkg source nameOut packageOut selfPackage) \<and>
     generateUniquePackageNamesFor (List.insert mockFrameworkImportPath (Imports1 pkg))
       = generateUniquePackageNamesFor (List.insert mockFrameworkImportPath (Imports2 pkg)) \<and>
     map_option SortImports
         (bufOf (generateCode String Imports1 order1 source pkg nameOut packageOut selfPackage
                   \<lparr>buf = [], packageMap = Map.empty\<rparr>))
       = map_option SortImports
           (bufOf (generateCode String Imports2 order2 source pkg nameOut packageOut selfPackage
                     \<lparr>buf = [], packageMap = Map.empty\<rparr>))"
proof -
  let ?al1 = "generateUniquePackageNamesFor (List.insert mockFrameworkImportPath (Imports1 pkg))"
  let ?al2 = "generateUniquePackageNamesFor (List.insert mockFrameworkImportPath (Imports2 pkg))"
  let ?g = "\<lparr>buf = [], packageMap = Map.empty\<rparr>"
  have al: "?al1 = ?al2"
    using assms(1-3) by (rule insert_keys)
  let ?tail = "unlines (codeTail String (fst ?al1) pkg nameOut selfPackage)"
  let ?ls1 = "concat (map (importText (snd ?al1) selfPackage) order1)"
  let ?ls2 = "concat (map (importText (snd ?al1) selfPackage) order2)"
  have b1: "bufOf (generateCode String Imports1 order1 source pkg nameOut packageOut
                     selfPackage ?g)
      = Some (unlines (codeHead source packageOut) @ unlines ?ls1 @ ?tail)"
    by (simp add: bufOf_generateCode)
  have b2: "bufOf (generateCode String Imports2 order2 source pkg nameOut packageOut
                     selfPackage ?g)
      = Some (unlines (codeHead source packageOut) @ unlines ?ls2 @ ?tail)"
    by (simp add: bufOf_generateCode al [symmetric])
  have ms: "mset ?ls1 = mset ?ls2"
    using assms(4,5) unfolding al [symmetric] by (intro mset_concat_map rangeOrder_mset)
  have specs: "\<forall>l\<in>set ?ls1. newline \<notin> set l \<and> l \<noteq> [] \<and> l \<noteq> '')''"
    using importText_specs by auto
  have srt: "SortImports (unlines (codeHead source packageOut) @ unlines ?ls1 @ ?tail)
      = SortImports (unlines (codeHead source packageOut) @ unlines ?ls2 @ ?tail)"
    using ms specs by (rule SortImports_buffer)
  have out: "outputOf (GenerateOutput String Imports (\<lambda>src. Printer (SortImports src))
                         rangeOrder pkg source nameOut packageOut selfPackage)
      = (case Printer (SortImports b) of Inl err \<Rightarrow> None | Inr out \<Rightarrow> Some out)"
    if "bufOf (generateCode String Imports rangeOrder source pkg nameOut packageOut selfPackage
                 ?g) = Some b"
    for Imports rangeOrder b
    using that
    by (auto simp: GenerateOutput_def bufOf_def andThen_def formattedOutput_def Let_def
                   outputOf_def
             split: sum.splits)
  show ?thesis
    unfolding out [OF b1] out [OF b2] b1 b2 using al srt by simp
qed

text \<open>
  Witness for C1: the interface \<open>Fetcher\<close>, whose imports \<open>io\<close> and \<open>net/http\<close> are
  discovered and ranged over in two different orders; the printer returns the sorted
  buffer as it is.
\<close>

theorem generate_output_deterministic_witness:
  "distinct (exampleImports examplePackage) \<and> distinct (exampleImportsReversed examplePackage) \<and>
   set (exampleImports examplePackage) = set (exampleImportsReversed examplePackage) \<and>
   rangeOrderOf (snd (generateUniquePackageNamesFor
      (List.insert mockFrameworkImportPath (exampleImports examplePackage))))
     [''io'', ''net/http'', ''github.com/petergtz/pegomock/v4''] \<and>
   rangeOrderOf (snd (generateUniquePackageNamesFor
      (List.insert mockFrameworkImportPath (exampleImportsReversed examplePackage))))
     [''github.com/petergtz/pegomock/v4'', ''net/http'', ''io''] \<and>
   outputOf (GenerateOutput exampleQualified exampleImports (\<lambda>src. Inr (SortImports src))
               [''io'', ''net/http'', ''github.com/petergtz/pegomock/v4'']
               examplePackage ''fetcher.go'' [] ''fetcher_test'' [])
     = outputOf (GenerateOutput exampleQualified exampleImportsReversed
                   (\<lambda>src. Inr (SortImports src))
                   [''github.com/petergtz/pegomock/v4'', ''net/http'', ''io'']
                   examplePackage ''fetcher.go'' [] ''fetcher_test'' [])"
proof -
  let ?nv = "snd (generateUniquePackageNamesFor
      (List.insert mockFrameworkImportPath (exampleImports examplePackage)))"
  let ?nv' = "snd (generateUniquePackageNamesFor
      (List.insert mockFrameworkImportPath (exampleImportsReversed examplePackage)))"
  have h1: "distinct (exampleImports examplePackage)"
    by (simp add: exampleImports_def)
  have h2: "distinct (exampleImportsReversed examplePackage)"
    by (simp add: exampleImportsReversed_def)
  have h3: "set (exampleImports examplePackage) = set (exampleImportsReversed examplePackage)"
    by (auto simp add: exampleImports_def exampleImportsReversed_def)
  have vc: "vendorCleaned ''io'' = ''io''" "vendorCleaned ''net/http'' = ''net/http''"
    "vendorCleaned ''github.com/petergtz/pegomock/v4'' = ''github.com/petergtz/pegomock/v4''"
    by code_simp+
  have d: "dom ?nv = {''io'', ''net/http'', ''github.com/petergtz/pegomock/v4''}"
    unfolding dom_nonVendorPackageMap
    by (auto simp add: exampleImports_def mockFrameworkImportPath_def vc)
  have d': "dom ?nv' = {''io'', ''net/http'', ''github.com/petergtz/pegomock/v4''}"
    unfolding dom_nonVendorPackageMap
    by (auto simp add: exampleImportsReversed_def mockFrameworkImportPath_def vc)
  have h4: "rangeOrderOf ?nv [''io'', ''net/http'', ''github.com/petergtz/pegomock/v4'']"
    unfolding rangeOrderOf_def d by auto
  have h5: "rangeOrderOf ?nv' [''github.com/petergtz/pegomock/v4'', ''net/http'', ''io'']"
    unfolding rangeOrderOf_def d' by auto
  from generate_output_deterministic [of exampleImports examplePackage exampleImportsReversed,
      OF h1 h2 h3 h4 h5, of exampleQualified Inr "''fetcher.go''" "[]" "''fetcher_test''" "[]"]
  show ?thesis
    using h1 h2 h3 h4 h5 by blast
qed

end
